theory Spec2Isabelle
  imports Complex_Main "HOL-Library.Word"
begin

section \<open>Python values used by \<open>isyntax2raw\<close>\<close>

text \<open>
  Exceptions are values. Every constructor below is an instance of Python's
  \<open>Exception\<close> class; \<open>LibraryError\<close> stands for whatever numpy, zarr, tifffile,
  PIL or the engine raise from inside a call.
\<close>

datatype py_exception =
    ZeroDivisionError
  | ValueError
  | IndexError
  | AttributeError
  | FileExistsError
  | FileNotFoundError
  | NotADirectoryError
  | IsADirectoryError
  | RuntimeError string
  | LibraryError string

text \<open>The subclasses of \<open>OSError\<close> that \<open>os.mkdir\<close> and \<open>open\<close> raise in this model.\<close>

fun is_OSError :: "py_exception \<Rightarrow> bool" where
  "is_OSError FileExistsError = True"
| "is_OSError FileNotFoundError = True"
| "is_OSError NotADirectoryError = True"
| "is_OSError IsADirectoryError = True"
| "is_OSError _ = False"

text \<open>\<open>range(n)\<close>: the integers \<open>0, ..., n - 1\<close>, empty when \<open>n \<le> 0\<close>.\<close>

definition py_range :: "int \<Rightarrow> int list" where
  "py_range n = map int [0..<nat n]"

text \<open>
  A \<open>for\<close> loop whose body may raise: the first exception leaves the loop, otherwise
  the state is threaded through the iterations.
\<close>

fun for_each :: "('a \<Rightarrow> 's \<Rightarrow> 'e + 's) \<Rightarrow> 'a list \<Rightarrow> 's \<Rightarrow> 'e + 's" where
  "for_each body [] s = Inr s"
| "for_each body (x # xs) s =
     (case body x s of Inl e \<Rightarrow> Inl e | Inr s' \<Rightarrow> for_each body xs s')"

text \<open>
  Python's true division of two integers produces the double nearest to the exact
  quotient, and \<open>math.ceil\<close> rounds it up. Floats are modelled by exact rationals. For
  \<open>0 \<le> a < 2^53\<close> and \<open>0 < b < 2^53\<close> the double has the ceiling of the exact
  quotient \<open>a / b\<close>: it is \<open>a / b\<close> itself when that is an integer, and lies
  strictly above \<open>\<lfloor>a / b\<rfloor>\<close> and not above \<open>\<lfloor>a / b\<rfloor> + 1\<close> otherwise. Every property
  below that states the value of such a ceiling assumes these bounds.
\<close>

definition py_truediv :: "int \<Rightarrow> int \<Rightarrow> py_exception + rat" where
  "py_truediv a b = (if b = 0 then Inl ZeroDivisionError else Inr (of_int a / of_int b))"

definition math_ceil :: "rat \<Rightarrow> int" where
  "math_ceil q = \<lceil>q\<rceil>"

text \<open>\<open>int(q)\<close> on a float truncates towards zero.\<close>

definition py_int :: "rat \<Rightarrow> int" where
  "py_int q = (if 0 \<le> q then \<lfloor>q\<rfloor> else \<lceil>q\<rceil>)"

subsection \<open>\<open>str\<close> of an integer and \<open>os.path.join\<close>\<close>

definition digit_char :: "nat \<Rightarrow> char" where
  "digit_char d = ''0123456789'' ! d"

fun str_nat :: "nat \<Rightarrow> string" where
  "str_nat n = (if n < 10 then [digit_char n] else str_nat (n div 10) @ [digit_char (n mod 10)])"

declare str_nat.simps [simp del]

definition str_int :: "int \<Rightarrow> string" where
  "str_int i = (if i < 0 then CHR ''-'' # str_nat (nat (- i)) else str_nat (nat i))"

text \<open>\<open>posixpath.join(a, b)\<close> for two components.\<close>

definition path_join :: "string \<Rightarrow> string \<Rightarrow> string" where
  "path_join a b =
     (if b \<noteq> [] \<and> hd b = CHR ''/'' then b
      else if a = [] \<or> last a = CHR ''/'' then a @ b
      else a @ ''/'' @ b)"

subsection \<open>The world outside the interpreter\<close>

text \<open>
  The part of the world the program touches: the directories that exist, the files
  that existed before the run, the chunked-array datasets that were created, the tiles
  written so far, the failure diagnostics, the paths the engine was asked to open and the
  batches of patches it was asked to decode. Paths are compared after stripping
  trailing slashes; there are no symbolic links and no \<open>.\<close> or \<open>..\<close> components.
  Written tiles are kept apart from \<open>fs_files\<close>: no path that the program tests or
  creates as a directory is the path of a tile file. Progress messages
  (\<open>print("processing tile ...")\<close> and the like) are not recorded.
\<close>

type_synonym patch = "int \<times> int \<times> int \<times> int \<times> nat"
type_synonym patch_id = "int \<times> int"
type_synonym shape3 = "int \<times> int \<times> int"

record dataset =
  ds_store :: string
  ds_name :: string
  ds_shape :: shape3
  ds_chunks :: shape3

datatype tile_payload =
    Interleaved "8 word list"
  | Planar "8 word list list list"

text \<open>
  One tile on disk: the file (or the array store) it went to, its level, the pixel
  offsets \<open>x_start, y_start\<close> and the size it was written with, and its bytes.
\<close>

record tile_write =
  tw_target :: string
  tw_level :: nat
  tw_x_start :: int
  tw_y_start :: int
  tw_width :: int
  tw_height :: int
  tw_payload :: tile_payload

datatype log_entry = Traceback py_exception | Printed string

record world =
  fs_dirs :: "string set"
  fs_files :: "string set"
  fs_datasets :: "dataset list"
  fs_tiles :: "tile_write list"
  diagnostics :: "log_entry list"
  engine_opens :: "string list"
  engine_requests :: "patch list list"

text \<open>
  An effectful call either raises, leaving the world as it was at the \<open>raise\<close>, or
  returns a value and the new world.
\<close>

type_synonym 'a result = "(py_exception \<times> world) + ('a \<times> world)"

definition all_slashes :: "string \<Rightarrow> bool" where
  "all_slashes p = (\<forall>c \<in> set p. c = CHR ''/'')"

definition strip_slashes :: "string \<Rightarrow> string" where
  "strip_slashes p = rev (dropWhile (\<lambda>c. c = CHR ''/'') (rev p))"

definition norm_path :: "string \<Rightarrow> string" where
  "norm_path p = (if all_slashes p then p else strip_slashes p)"

text \<open>\<open>posixpath.dirname\<close>: everything up to the last slash, without trailing slashes.\<close>

definition parent_dir :: "string \<Rightarrow> string" where
  "parent_dir p =
     (let head = rev (dropWhile (\<lambda>c. c \<noteq> CHR ''/'') (rev p))
      in if head \<noteq> [] \<and> \<not> all_slashes head then strip_slashes head else head)"

definition is_dir :: "world \<Rightarrow> string \<Rightarrow> bool" where
  "is_dir w p = (p = [] \<or> all_slashes p \<or> norm_path p \<in> fs_dirs w)"

definition path_exists :: "world \<Rightarrow> string \<Rightarrow> bool" where
  "path_exists w p = (p \<noteq> [] \<and> (is_dir w p \<or> norm_path p \<in> fs_files w))"

text \<open>
  \<open>os.mkdir(p)\<close>: fails when \<open>p\<close> exists, when its parent is missing or is a file, and
  on the empty path; otherwise the directory is new in the result.
\<close>

definition os_mkdir :: "string \<Rightarrow> world \<Rightarrow> (py_exception \<times> world) + world" where
  "os_mkdir p w =
     (if p = [] then Inl (FileNotFoundError, w)
      else if path_exists w p then Inl (FileExistsError, w)
      else if norm_path (parent_dir (norm_path p)) \<in> fs_files w then Inl (NotADirectoryError, w)
      else if \<not> is_dir w (parent_dir (norm_path p)) then Inl (FileNotFoundError, w)
      else Inr (w\<lparr>fs_dirs := insert (norm_path p) (fs_dirs w)\<rparr>))"

text \<open>
  \<open>open(p, 'wb')\<close> as far as it can fail: the parent must be a directory and \<open>p\<close> must
  not be one.
\<close>

definition open_wb :: "string \<Rightarrow> world \<Rightarrow> py_exception option" where
  "open_wb p w =
     (if p = [] then Some FileNotFoundError
      else if is_dir w p then Some IsADirectoryError
      else if norm_path (parent_dir (norm_path p)) \<in> fs_files w then Some NotADirectoryError
      else if \<not> is_dir w (parent_dir (norm_path p)) then Some FileNotFoundError
      else None)"

text \<open>
  Like \<open>for_each\<close>, for a body that may also block for ever: \<open>None\<close> is "does not
  return".
\<close>

fun for_each_opt :: "('a \<Rightarrow> 's \<Rightarrow> ('e + 's) option) \<Rightarrow> 'a list \<Rightarrow> 's \<Rightarrow> ('e + 's) option" where
  "for_each_opt body [] s = Some (Inr s)"
| "for_each_opt body (x # xs) s =
     (case body x s of
        None \<Rightarrow> None
      | Some (Inl e) \<Rightarrow> Some (Inl e)
      | Some (Inr s') \<Rightarrow> for_each_opt body xs s')"

subsection \<open>The decoding engine\<close>

text \<open>
  The pixel engine is an external library. Its answers are parameters of the model:
  the images with their type and valid data envelopes (\<open>None\<close> is Python's \<open>None\<close>),
  the number of levels, the dimension ranges \<open>[origin, step, end]\<close> of every level,
  the region handles it returns for a batch of patches, which of the pending regions a
  call of \<open>waitAny\<close> reports as ready (it is given the level and the number of earlier
  calls for that level), the bytes \<open>region.get\<close> copies into the buffer, and whether
  opening a path fails. Region handles are compared by identity, that is by
  \<open>region_id\<close>.
\<close>

type_synonym dim_range = "int \<times> int \<times> int"

definition dr_origin :: "dim_range \<Rightarrow> int" where "dr_origin dr = fst dr"
definition dr_step :: "dim_range \<Rightarrow> int" where "dr_step dr = fst (snd dr)"
definition dr_end :: "dim_range \<Rightarrow> int" where "dr_end dr = snd (snd dr)"

record image =
  IMAGE_TYPE :: string
  IMAGE_VALID_DATA_ENVELOPES :: "unit option"

record region =
  region_id :: nat
  region_range :: patch

record engine =
  images :: "image list"
  numLevels :: int
  dimensionRanges :: "nat \<Rightarrow> dim_range \<times> dim_range"
  requestRegions :: "nat \<Rightarrow> patch list \<Rightarrow> region list"
  waitAny :: "nat \<Rightarrow> nat \<Rightarrow> region list \<Rightarrow> region list"
  region_get :: "nat \<Rightarrow> nat \<Rightarrow> 8 word"
  open_fails :: "string \<Rightarrow> py_exception option"

text \<open>
  Failures of the output libraries that the file system does not explain (a full disk,
  an unsupported extension, a codec error): whether the write of the tile with this
  target, level and offsets raises.
\<close>

type_synonym faults = "string \<Rightarrow> nat \<Rightarrow> int \<Rightarrow> int \<Rightarrow> py_exception option"

section \<open>\<open>WriteTiles\<close>\<close>

text \<open>The fields \<open>WriteTiles.__init__\<close> stores; \<open>resolutions\<close> may be \<open>None\<close>.\<close>

record write_tiles =
  tile_width :: int
  tile_height :: int
  resolutions :: "int option"
  file_type :: string
  max_workers :: int
  input_path :: string
  slide_directory :: string

text \<open>\<open>self.file_type in ("n5", "zarr")\<close>\<close>

definition chunked :: "write_tiles \<Rightarrow> bool" where
  "chunked self = (file_type self = ''n5'' \<or> file_type self = ''zarr'')"

text \<open>
  \<open>__init__\<close>: store the fields, \<open>os.mkdir\<close> the output directory, then open the
  engine's input.
\<close>

definition init_write_tiles ::
  "engine \<Rightarrow> int \<Rightarrow> int \<Rightarrow> int option \<Rightarrow> string \<Rightarrow> int \<Rightarrow> string \<Rightarrow> string \<Rightarrow> world
     \<Rightarrow> write_tiles result" where
  "init_write_tiles eng tile_width' tile_height' resolutions' file_type' max_workers' input_path'
      output_path w =
     (let self = \<lparr>tile_width = tile_width', tile_height = tile_height',
                  resolutions = resolutions', file_type = file_type',
                  max_workers = max_workers', input_path = input_path',
                  slide_directory = output_path\<rparr>
      in case os_mkdir (slide_directory self) w of
           Inl ew \<Rightarrow> Inl ew
         | Inr w1 \<Rightarrow>
             (let w2 = w1\<lparr>engine_opens := engine_opens w1 @ [input_path']\<rparr>
              in case open_fails eng input_path' of
                   Some e \<Rightarrow> Inl (e, w2)
                 | None \<Rightarrow> Inr (self, w2)))"

text \<open>\<open>get_size\<close>: the length of a dimension, a float.\<close>

definition get_size :: "dim_range \<Rightarrow> py_exception + rat" where
  "get_size dim_range = py_truediv (dr_end dim_range - dr_origin dim_range) (dr_step dim_range)"

definition find_image_type :: "engine \<Rightarrow> string \<Rightarrow> image option" where
  "find_image_type eng image_type = find (\<lambda>img. image_type = IMAGE_TYPE img) (images eng)"

subsection \<open>\<open>create_tile_directory\<close> and \<open>get_tile_filename\<close>\<close>

text \<open>
  zarr's \<open>normalize_chunks\<close>, for a tuple of three chunk lengths: a length given as
  \<open>None\<close> or as \<open>-1\<close> is the whole axis
  (\<open>tuple(s if c == -1 or c is None else int(c) for s, c in zip(shape, chunks))\<close>).
\<close>

definition normalize_chunk :: "int \<Rightarrow> int option \<Rightarrow> int" where
  "normalize_chunk s c = (case c of None \<Rightarrow> s | Some c' \<Rightarrow> if c' = - 1 then s else c')"

definition normalize_chunks :: "shape3 \<Rightarrow> int option \<times> int option \<times> int option \<Rightarrow> shape3" where
  "normalize_chunks shape chunks =
     (case (shape, chunks) of ((s0, s1, s2), (c0, c1, c2)) \<Rightarrow>
        (normalize_chunk s0 c0, normalize_chunk s1 c1, normalize_chunk s2 c2))"

text \<open>
  \<open>zarr.group(store=store).create_dataset(name, shape=..., chunks=..., dtype='B')\<close> on
  a directory store at \<open>path\<close>: the store's directory comes into being, and the
  dataset is new unless an array of that name is already there.
\<close>

definition zarr_create_dataset ::
  "string \<Rightarrow> string \<Rightarrow> shape3 \<Rightarrow> int option \<times> int option \<times> int option \<Rightarrow> world
     \<Rightarrow> (py_exception \<times> world) + world" where
  "zarr_create_dataset path name shape chunks w =
     (let w1 = w\<lparr>fs_dirs := insert (norm_path path) (fs_dirs w)\<rparr>
      in if \<exists>d \<in> set (fs_datasets w). ds_store d = norm_path path \<and> ds_name d = name
         then Inl (LibraryError ''ContainsArrayError'', w1)
         else Inr (w1\<lparr>fs_datasets := fs_datasets w1 @
                 [\<lparr>ds_store = norm_path path, ds_name = name, ds_shape = shape,
                   ds_chunks = normalize_chunks shape chunks\<rparr>]\<rparr>))"

definition create_tile_directory :: "write_tiles \<Rightarrow> nat \<Rightarrow> int \<Rightarrow> int \<Rightarrow> world \<Rightarrow> string result" where
  "create_tile_directory self resolution width height w =
     (let tile_directory = path_join (slide_directory self) (str_nat resolution)
      in if chunked self then
           (let tile_directory = path_join (slide_directory self) (''pyramid.'' @ file_type self)
            in case zarr_create_dataset tile_directory (str_nat resolution) (3, height, width)
                      (None, Some (tile_height self), Some (tile_width self)) w of
                 Inl ew \<Rightarrow> Inl ew
               | Inr w' \<Rightarrow> Inr (tile_directory, w'))
         else
           (case os_mkdir tile_directory w of
              Inl ew \<Rightarrow> Inl ew
            | Inr w' \<Rightarrow> Inr (tile_directory, w')))"

definition get_tile_filename :: "write_tiles \<Rightarrow> string \<Rightarrow> int \<Rightarrow> int \<Rightarrow> string" where
  "get_tile_filename self tile_directory x_start y_start =
     (let filename = path_join (path_join tile_directory (str_int x_start))
                       (str_int y_start @ ''.'' @ file_type self)
      in if chunked self then tile_directory else filename)"

subsection \<open>\<open>make_planar\<close>\<close>

text \<open>\<open>pixels[k::3]\<close> is \<open>every_third (drop k pixels)\<close>.\<close>

fun every_third :: "'a list \<Rightarrow> 'a list" where
  "every_third [] = []"
| "every_third (x # xs) = x # every_third (drop 2 xs)"

text \<open>
  \<open>v.shape = (rows, cols)\<close> on a one-dimensional array: numpy infers one length given
  as \<open>-1\<close> and refuses every other shape whose size is not the array's.
\<close>

definition chop_rows :: "nat \<Rightarrow> nat \<Rightarrow> 'a list \<Rightarrow> 'a list list" where
  "chop_rows rows cols v = map (\<lambda>y. take cols (drop (y * cols) v)) [0..<rows]"

definition set_shape :: "'a list \<Rightarrow> int \<Rightarrow> int \<Rightarrow> py_exception + 'a list list" where
  "set_shape v rows cols =
     (let n = int (length v)
      in if rows = -1 \<and> cols = -1 then Inl ValueError
         else if rows = -1 then
           (if 0 < cols \<and> n mod cols = 0 then Inr (chop_rows (nat (n div cols)) (nat cols) v)
            else Inl ValueError)
         else if cols = -1 then
           (if 0 < rows \<and> n mod rows = 0 then Inr (chop_rows (nat rows) (nat (n div rows)) v)
            else Inl ValueError)
         else if rows < 0 \<or> cols < 0 \<or> rows * cols \<noteq> n then Inl ValueError
         else Inr (chop_rows (nat rows) (nat cols) v))"

definition make_planar :: "8 word list \<Rightarrow> int \<Rightarrow> int \<Rightarrow> py_exception + 8 word list list list" where
  "make_planar pixels tile_width' tile_height' =
     (let r = every_third (drop 0 pixels);
          g = every_third (drop 1 pixels);
          b = every_third (drop 2 pixels)
      in case set_shape r tile_height' tile_width' of Inl e \<Rightarrow> Inl e | Inr r' \<Rightarrow>
         case set_shape g tile_height' tile_width' of Inl e \<Rightarrow> Inl e | Inr g' \<Rightarrow>
         case set_shape b tile_height' tile_width' of Inl e \<Rightarrow> Inl e | Inr b' \<Rightarrow>
         Inr [r', g', b'])"

text \<open>
  Interleaving three planes again, as the specification words it
  (\<open>R0 G0 B0 R1 G1 B1 ...\<close>): pixel by pixel in row-major order, one byte of each plane.
\<close>

definition interleave :: "'a list list list \<Rightarrow> 'a list" where
  "interleave planes =
     (let r = concat (planes ! 0); g = concat (planes ! 1); b = concat (planes ! 2)
      in concat (map (\<lambda>i. [r ! i, g ! i, b ! i]) [0..<length r]))"

subsection \<open>\<open>write_tile\<close>\<close>

text \<open>The number of indices the slice \<open>start:stop\<close> selects on an axis of length \<open>n\<close>.\<close>

definition py_slice_len :: "int \<Rightarrow> int \<Rightarrow> int \<Rightarrow> int" where
  "py_slice_len start stop n =
     (let clamp = (\<lambda>i. if i < 0 then max (i + n) 0 else min i n)
      in max 0 (clamp stop - clamp start))"

text \<open>
  The \<open>try\<close> block of \<open>write_tile\<close>. The array store looks the dataset of the level up
  (\<open>KeyError\<close> when it is missing) and refuses a value whose shape is not that of the
  selection \<open>[:, y_start:y_end, x_start:x_end]\<close>; the two file formats open the
  destination for writing. On success the tile is on disk.
\<close>

definition tile_body ::
  "write_tiles \<Rightarrow> faults \<Rightarrow> 8 word list \<Rightarrow> nat \<Rightarrow> int \<Rightarrow> int \<Rightarrow> int \<Rightarrow> int \<Rightarrow> string \<Rightarrow> world
     \<Rightarrow> (py_exception \<times> world) + world" where
  "tile_body self flt pixels resolution x_start y_start tile_width' tile_height' filename w =
     (let x_end = x_start + tile_width';
          y_end = y_start + tile_height';
          written = (\<lambda>payload. w\<lparr>fs_tiles := fs_tiles w @
             [\<lparr>tw_target = filename, tw_level = resolution, tw_x_start = x_start,
               tw_y_start = y_start, tw_width = tile_width', tw_height = tile_height',
               tw_payload = payload\<rparr>]\<rparr>)
      in if chunked self then
           (case make_planar pixels tile_width' tile_height' of
              Inl e \<Rightarrow> Inl (e, w)
            | Inr planar \<Rightarrow>
               (case find (\<lambda>d. ds_store d = norm_path filename \<and> ds_name d = str_nat resolution)
                       (fs_datasets w) of
                  None \<Rightarrow> Inl (LibraryError ''KeyError'', w)
                | Some d \<Rightarrow>
                   (case ds_shape d of (channels, rows, cols) \<Rightarrow>
                      if channels \<noteq> 3 \<or> py_slice_len y_start y_end rows \<noteq> tile_height'
                         \<or> py_slice_len x_start x_end cols \<noteq> tile_width'
                      then Inl (ValueError, w)
                      else (case flt filename resolution x_start y_start of
                              Some e \<Rightarrow> Inl (e, w)
                            | None \<Rightarrow> Inr (written (Planar planar))))))
         else if file_type self = ''tiff'' then
           (case make_planar pixels tile_width' tile_height' of
              Inl e \<Rightarrow> Inl (e, w)
            | Inr planar \<Rightarrow>
               (case open_wb filename w of
                  Some e \<Rightarrow> Inl (e, w)
                | None \<Rightarrow>
                   (case flt filename resolution x_start y_start of
                      Some e \<Rightarrow> Inl (e, w)
                    | None \<Rightarrow> Inr (written (Planar planar)))))
         else
           (if tile_width' < 0 \<or> tile_height' < 0 then Inl (ValueError, w)
            else case open_wb filename w of
                   Some e \<Rightarrow> Inl (e, w)
                 | None \<Rightarrow>
                    (case flt filename resolution x_start y_start of
                       Some e \<Rightarrow> Inl (e, w)
                     | None \<Rightarrow> Inr (written (Interleaved pixels)))))"

text \<open>
  \<open>write_tile\<close>: the \<open>try\<close> block under \<open>except Exception\<close>, whose handler prints the
  stack trace and the line
  \<open>"Failed to write tile [:, %d:%d, %d:%d] to %s" % (x_start, x_end, y_start, y_end, filename)\<close>.
\<close>

definition failure_message :: "int \<Rightarrow> int \<Rightarrow> int \<Rightarrow> int \<Rightarrow> string \<Rightarrow> string" where
  "failure_message x_start x_end y_start y_end filename =
     ''Failed to write tile [:, '' @ str_int x_start @ '':'' @ str_int x_end @ '', ''
       @ str_int y_start @ '':'' @ str_int y_end @ ''] to '' @ filename"

definition write_tile ::
  "write_tiles \<Rightarrow> faults \<Rightarrow> 8 word list \<Rightarrow> nat \<Rightarrow> int \<Rightarrow> int \<Rightarrow> int \<Rightarrow> int \<Rightarrow> string \<Rightarrow> world
     \<Rightarrow> (py_exception \<times> world) + world" where
  "write_tile self flt pixels resolution x_start y_start tile_width' tile_height' filename w =
     (let x_end = x_start + tile_width';
          y_end = y_start + tile_height'
      in case tile_body self flt pixels resolution x_start y_start tile_width' tile_height'
                filename w of
           Inr w' \<Rightarrow> Inr w'
         | Inl (e, w') \<Rightarrow>
             Inr (w'\<lparr>diagnostics := diagnostics w' @
                    [Traceback e, Printed (failure_message x_start x_end y_start y_end filename)]\<rparr>))"

subsection \<open>Patch planning: \<open>create_x_directory\<close> and \<open>create_patch_list\<close>\<close>

definition create_x_directory ::
  "write_tiles \<Rightarrow> string \<Rightarrow> int \<Rightarrow> world \<Rightarrow> (py_exception \<times> world) + world" where
  "create_x_directory self tile_directory x_start w =
     (if chunked self then Inr w
      else let x_directory = path_join tile_directory (str_int x_start)
           in if \<not> path_exists w x_directory then os_mkdir x_directory w else Inr w)"

text \<open>
  \<open>create_patch_list\<close>: \<open>tiles\<close>, \<open>tile_size\<close> and \<open>origin\<close> are the two-element lists
  of the call; the loop state is the two result lists and the world. A patch is the
  list \<open>[x_start, x_end, y_start, y_end, level]\<close>, a patch identifier the tuple
  \<open>(x, y)\<close>.
\<close>

definition create_patch_list ::
  "write_tiles \<Rightarrow> int \<Rightarrow> int \<Rightarrow> int \<times> int \<Rightarrow> int \<times> int \<Rightarrow> int \<times> int \<Rightarrow> nat \<Rightarrow> string \<Rightarrow> world
     \<Rightarrow> (py_exception \<times> world) + (patch list \<times> patch_id list \<times> world)" where
  "create_patch_list self image_x_end image_y_end tiles tile_size origin level tile_directory w =
     (let scale = 2 ^ level;
          tile_size0 = fst tile_size * scale;
          tile_size1 = snd tile_size * scale
      in for_each (\<lambda>y.
           let y_start = snd origin + (y * tile_size1);
               y_end = min ((y_start + tile_size1) - scale) image_y_end
           in for_each (\<lambda>x (patches, patch_identifier, w).
                let x_start = fst origin + (x * tile_size0);
                    x_end = min ((x_start + tile_size0) - scale) image_x_end;
                    patch = (x_start, x_end, y_start, y_end, level)
                in case create_x_directory self tile_directory (x * tile_width self) w of
                     Inl ew \<Rightarrow> Inl ew
                   | Inr w' \<Rightarrow> Inr (patches @ [patch], patch_identifier @ [(x, y)], w'))
              (py_range (fst tiles)))
         (py_range (snd tiles)) ([], [], w))"

subsection \<open>\<open>write_pyramid\<close>\<close>

text \<open>
  The sizes \<open>write_pyramid\<close> computes for a level:
  \<open>(resolution_x_end, resolution_y_end, x_tiles, y_tiles)\<close>.
\<close>

definition grid_size ::
  "write_tiles \<Rightarrow> dim_range \<times> dim_range \<Rightarrow> py_exception + (int \<times> int \<times> int \<times> int)" where
  "grid_size self dim_ranges =
     (case get_size (fst dim_ranges) of Inl e \<Rightarrow> Inl e | Inr sx \<Rightarrow>
      case get_size (snd dim_ranges) of Inl e \<Rightarrow> Inl e | Inr sy \<Rightarrow>
      let resolution_x_end = math_ceil sx;
          resolution_y_end = math_ceil sy
      in case py_truediv resolution_x_end (tile_width self) of Inl e \<Rightarrow> Inl e | Inr qx \<Rightarrow>
         case py_truediv resolution_y_end (tile_height self) of Inl e \<Rightarrow> Inl e | Inr qy \<Rightarrow>
         Inr (resolution_x_end, resolution_y_end, math_ceil qx, math_ceil qy))"

text \<open>\<open>regions.index(region)\<close> and \<open>regions.remove(region)\<close>, by identity.\<close>

fun index_of :: "('a \<Rightarrow> bool) \<Rightarrow> 'a list \<Rightarrow> nat option" where
  "index_of P [] = None"
| "index_of P (x # xs) =
     (if P x then Some 0 else case index_of P xs of None \<Rightarrow> None | Some i \<Rightarrow> Some (Suc i))"

fun remove_first :: "('a \<Rightarrow> bool) \<Rightarrow> 'a list \<Rightarrow> 'a list" where
  "remove_first P [] = []"
| "remove_first P (x # xs) = (if P x then xs else x # remove_first P xs)"

definition same_region :: "region \<Rightarrow> region \<Rightarrow> bool" where
  "same_region r r' = (region_id r' = region_id r)"

text \<open>
  \<open>MaxQueuePool.submit\<close> on one schedule of the thread pool, the one that runs every
  job to completion as it is submitted: a slot is acquired (which blocks for ever when
  the semaphore was created with no slot), the job runs, its exception if any is stored
  in the future, and the slot is released. The other schedules are the subject of the
  transition system of the last section.
\<close>

definition pool_submit ::
  "int \<Rightarrow> (world \<Rightarrow> (py_exception \<times> world) + world) \<Rightarrow> world
     \<Rightarrow> (py_exception option \<times> world) option" where
  "pool_submit max_queue_size job w =
     (if max_queue_size \<le> 0 then None
      else Some (case job w of Inl (e, w') \<Rightarrow> (Some e, w') | Inr w' \<Rightarrow> (None, w')))"

text \<open>
  \<open>pixels = np.empty(n, dtype='B'); region.get(pixels)\<close>: a buffer of \<open>n\<close> bytes,
  filled by the engine.
\<close>

definition region_pixels :: "engine \<Rightarrow> region \<Rightarrow> nat \<Rightarrow> 8 word list" where
  "region_pixels eng region n = map (region_get eng (region_id region)) [0..<n]"

type_synonym dispatch_state = "region list \<times> patch_id list \<times> py_exception option list \<times> world"

text \<open>The body of \<open>for region_index, region in enumerate(regions_ready)\<close>.\<close>

definition dispatch_region ::
  "write_tiles \<Rightarrow> engine \<Rightarrow> faults \<Rightarrow> dim_range \<times> dim_range \<Rightarrow> nat \<Rightarrow> string \<Rightarrow> region
     \<Rightarrow> dispatch_state \<Rightarrow> ((py_exception \<times> world) + dispatch_state) option" where
  "dispatch_region self eng flt dim_ranges resolution tile_directory region st =
     (case st of (regions, patch_identifier, jobs, w) \<Rightarrow>
      case region_range region of (x_start, x_end, y_start, y_end, level) \<Rightarrow>
      case py_truediv (x_end - x_start) (dr_step (fst dim_ranges)) of
        Inl e \<Rightarrow> Some (Inl (e, w))
      | Inr qx \<Rightarrow>
      case py_truediv (y_end - y_start) (dr_step (snd dim_ranges)) of
        Inl e \<Rightarrow> Some (Inl (e, w))
      | Inr qy \<Rightarrow>
      let width = py_int (1 + qx);
          height = py_int (1 + qy);
          pixel_buffer_size = width * height * 3
      in if pixel_buffer_size < 0 then Some (Inl (ValueError, w))
         else case index_of (same_region region) regions of
           None \<Rightarrow> Some (Inl (ValueError, w))
         | Some i \<Rightarrow>
           if length patch_identifier \<le> i then Some (Inl (IndexError, w))
           else
             let patch_id = patch_identifier ! i;
                 x_start = fst patch_id * tile_width self;
                 y_start = snd patch_id * tile_height self;
                 patch_identifier' = remove1 patch_id patch_identifier;
                 pixels = region_pixels eng region (nat pixel_buffer_size);
                 regions' = remove_first (same_region region) regions;
                 filename = get_tile_filename self tile_directory x_start y_start
             in case pool_submit (max_workers self)
                       (write_tile self flt pixels resolution x_start y_start width height filename) w of
                  None \<Rightarrow> None
                | Some (future, w') \<Rightarrow> Some (Inr (regions', patch_identifier', jobs @ [future], w')))"

text \<open>
  \<open>while regions: regions_ready = waitAny(regions); for ... in regions_ready: ...\<close>.
  The loop runs until the engine has delivered every region; \<open>fuel\<close> bounds the number
  of \<open>waitAny\<close> calls the model follows, and \<open>None\<close> says that the loop has not
  returned.
\<close>

fun dispatch_loop ::
  "write_tiles \<Rightarrow> engine \<Rightarrow> faults \<Rightarrow> dim_range \<times> dim_range \<Rightarrow> nat \<Rightarrow> string \<Rightarrow> nat \<Rightarrow> nat
     \<Rightarrow> dispatch_state \<Rightarrow> ((py_exception \<times> world) + dispatch_state) option" where
  "dispatch_loop self eng flt dim_ranges resolution tile_directory 0 calls st =
     (if fst st = [] then Some (Inr st) else None)"
| "dispatch_loop self eng flt dim_ranges resolution tile_directory (Suc fuel) calls st =
     (if fst st = [] then Some (Inr st)
      else let regions_ready = waitAny eng resolution calls (fst st)
           in case for_each_opt (dispatch_region self eng flt dim_ranges resolution tile_directory)
                     regions_ready st of
                None \<Rightarrow> None
              | Some (Inl ew) \<Rightarrow> Some (Inl ew)
              | Some (Inr st') \<Rightarrow>
                  dispatch_loop self eng flt dim_ranges resolution tile_directory fuel (Suc calls) st')"

text \<open>
  The body of \<open>for resolution in resolutions\<close>, in two parts. First the sizes, the
  tile directory and the patches of the level.
\<close>

definition plan_level ::
  "write_tiles \<Rightarrow> engine \<Rightarrow> nat \<Rightarrow> world \<Rightarrow> (string \<times> patch list \<times> patch_id list) result" where
  "plan_level self eng resolution w =
     (let dim_ranges = dimensionRanges eng resolution
      in case grid_size self dim_ranges of
           Inl e \<Rightarrow> Inl (e, w)
         | Inr (resolution_x_end, resolution_y_end, x_tiles, y_tiles) \<Rightarrow>
      case create_tile_directory self resolution (resolution_x_end + 1) (resolution_y_end + 1) w of
           Inl ew \<Rightarrow> Inl ew
         | Inr (tile_directory, w1) \<Rightarrow>
      case create_patch_list self (dr_end (fst dim_ranges)) (dr_end (snd dim_ranges))
             (x_tiles, y_tiles) (tile_width self, tile_height self)
             (dr_origin (fst dim_ranges), dr_origin (snd dim_ranges)) resolution tile_directory w1 of
           Inl ew \<Rightarrow> Inl ew
         | Inr (patches, patch_identifier, w2) \<Rightarrow>
             Inr ((tile_directory, patches, patch_identifier), w2))"

text \<open>
  Then the request to the engine and the dispatch of the regions to the pool.
  \<open>BoundedSemaphore\<close> refuses a negative bound when the pool is created. The futures
  are only waited for: what they hold is never raised.
\<close>

definition write_level ::
  "write_tiles \<Rightarrow> engine \<Rightarrow> faults \<Rightarrow> nat \<Rightarrow> nat \<Rightarrow> world \<Rightarrow> ((py_exception \<times> world) + world) option" where
  "write_level self eng flt fuel resolution w =
     (case plan_level self eng resolution w of
        Inl ew \<Rightarrow> Some (Inl ew)
      | Inr ((tile_directory, patches, patch_identifier), w2) \<Rightarrow>
      let dim_ranges = dimensionRanges eng resolution;
          regions = requestRegions eng resolution patches;
          w3 = w2\<lparr>engine_requests := engine_requests w2 @ [patches]\<rparr>
      in if max_workers self < 0 then Some (Inl (ValueError, w3))
         else case dispatch_loop self eng flt dim_ranges resolution tile_directory fuel 0
                     (regions, patch_identifier, [], w3) of
                None \<Rightarrow> None
              | Some (Inl ew) \<Rightarrow> Some (Inl ew)
              | Some (Inr (regions', patch_identifier', jobs, w4)) \<Rightarrow> Some (Inr w4))"

text \<open>\<open>range(pe_in.numLevels())\<close> or \<open>range(self.resolutions)\<close>: the levels, as naturals.\<close>

definition level_range :: "int \<Rightarrow> nat list" where
  "level_range n = [0..<nat n]"

definition write_pyramid ::
  "write_tiles \<Rightarrow> engine \<Rightarrow> faults \<Rightarrow> nat \<Rightarrow> world \<Rightarrow> ((py_exception \<times> world) + world) option" where
  "write_pyramid self eng flt fuel w =
     (case find_image_type eng ''WSI'' of
        None \<Rightarrow> Some (Inl (AttributeError, w))
      | Some image_container \<Rightarrow>
     (case IMAGE_VALID_DATA_ENVELOPES image_container of
        None \<Rightarrow> Some (Inl (RuntimeError ''No valid data envelopes'', w))
      | Some scanned_areas \<Rightarrow>
         (let resolutions' = (case resolutions self of
                                None \<Rightarrow> level_range (numLevels eng)
                              | Some n \<Rightarrow> level_range n)
          in for_each_opt (write_level self eng flt fuel) resolutions' w)))"

section \<open>Notions the properties are stated with\<close>

text \<open>
  The operands of a true division whose double has the ceiling of the exact quotient.
\<close>

definition exact_quotient :: "int \<Rightarrow> int \<Rightarrow> bool" where
  "exact_quotient a b = (0 \<le> a \<and> a < 2 ^ 53 \<and> 0 < b \<and> b < 2 ^ 53)"



text \<open>
  A world with its tiles and diagnostics replaced: planning a level neither reads nor
  writes these two.
\<close>

definition retile :: "tile_write list \<Rightarrow> log_entry list \<Rightarrow> world \<Rightarrow> world" where
  "retile ts ds w = w\<lparr>fs_tiles := ts, diagnostics := ds\<rparr>"




text \<open>
  The directory of the columns of a level can be created in: always for the chunked
  formats (which create none), otherwise when the tile directory is a directory.
\<close>

definition tile_dir_ready :: "write_tiles \<Rightarrow> world \<Rightarrow> string \<Rightarrow> bool" where
  "tile_dir_ready self w td = (chunked self \<or> (is_dir w td \<and> norm_path td \<notin> fs_files w))"

text \<open>The level-0 coordinates of a patch: both ends of its two ranges are inclusive.\<close>

definition patch_rect :: "patch \<Rightarrow> (int \<times> int) set" where
  "patch_rect p = (case p of (x_start, x_end, y_start, y_end, level) \<Rightarrow> {x_start..x_end} \<times> {y_start..y_end})"

text \<open>The patch of grid cell \<open>(x, y)\<close>, in closed form.\<close>

definition patch_at :: "int \<Rightarrow> int \<Rightarrow> int \<times> int \<Rightarrow> int \<times> int \<Rightarrow> nat \<Rightarrow> int \<Rightarrow> int \<Rightarrow> patch" where
  "patch_at image_x_end image_y_end tile_size origin level x y =
     (fst origin + x * (fst tile_size * 2 ^ level),
      min (fst origin + x * (fst tile_size * 2 ^ level) + fst tile_size * 2 ^ level - 2 ^ level) image_x_end,
      snd origin + y * (snd tile_size * 2 ^ level),
      min (snd origin + y * (snd tile_size * 2 ^ level) + snd tile_size * 2 ^ level - 2 ^ level) image_y_end,
      level)"

section \<open>The scenario of the specification\<close>

text \<open>
  A source with two levels, 600 by 600 and 300 by 300 pixels, written with tiles of
  512 by 512 into the directory \<open>out\<close>. The ends of the engine's dimension ranges are
  inclusive, so the ranges are \<open>[0, 1, 599]\<close> and \<open>[0, 2, 598]\<close>. The engine hands every
  patch back as a region with the requested range and reports the pending regions
  ready in reverse order.
\<close>

definition scenario_self :: "string \<Rightarrow> write_tiles" where
  "scenario_self ext =
     \<lparr>tile_width = 512, tile_height = 512, resolutions = None, file_type = ext,
      max_workers = 4, input_path = ''in.isyntax'', slide_directory = ''out''\<rparr>"

definition number_regions :: "nat \<Rightarrow> patch list \<Rightarrow> region list" where
  "number_regions k patches =
     map (\<lambda>(i, p). \<lparr>region_id = i, region_range = p\<rparr>) (zip [k..<k + length patches] patches)"

definition scenario_engine :: engine where
  "scenario_engine =
     \<lparr>images = [\<lparr>IMAGE_TYPE = ''LABELIMAGE'', IMAGE_VALID_DATA_ENVELOPES = None\<rparr>,
                \<lparr>IMAGE_TYPE = ''WSI'', IMAGE_VALID_DATA_ENVELOPES = Some ()\<rparr>],
      numLevels = 2,
      dimensionRanges = (\<lambda>level. if level = 0 then ((0, 1, 599), (0, 1, 599))
                                 else ((0, 2, 598), (0, 2, 598))),
      requestRegions = (\<lambda>level patches. number_regions 0 patches),
      waitAny = (\<lambda>level calls pending. rev pending),
      region_get = (\<lambda>rid offset. 0),
      open_fails = (\<lambda>path. None)\<rparr>"

definition no_faults :: faults where
  "no_faults = (\<lambda>filename level x_start y_start. None)"

definition empty_world :: world where
  "empty_world =
     \<lparr>fs_dirs = {}, fs_files = {}, fs_datasets = [], fs_tiles = [], diagnostics = [],
      engine_opens = [], engine_requests = []\<rparr>"

text \<open>The world after \<open>WriteTiles.__init__\<close> in the scenario.\<close>

definition scenario_world :: world where
  "scenario_world = empty_world\<lparr>fs_dirs := {''out''}, engine_opens := [''in.isyntax'']\<rparr>"

text \<open>The same engine for a source whose levels all have the given dimension ranges.\<close>

definition engine_with_ranges :: "dim_range \<times> dim_range \<Rightarrow> engine" where
  "engine_with_ranges dim_ranges = scenario_engine\<lparr>dimensionRanges := (\<lambda>level. dim_ranges)\<rparr>"



text \<open>The same tile in a chunked store: the planes \<open>make_planar\<close> returns.\<close>

definition scenario_chunk ::
  "string \<Rightarrow> nat \<Rightarrow> int \<Rightarrow> int \<Rightarrow> int \<Rightarrow> int \<Rightarrow> nat \<Rightarrow> patch \<Rightarrow> tile_write" where
  "scenario_chunk target level xs ys tw th k p =
     \<lparr>tw_target = target, tw_level = level, tw_x_start = xs, tw_y_start = ys,
      tw_width = tw, tw_height = th,
      tw_payload = Planar (projr (make_planar
                     (region_pixels scenario_engine \<lparr>region_id = k, region_range = p\<rparr>
                        (nat (tw * th * 3))) tw th))\<rparr>"

section \<open>The worker pool as a transition system\<close>

text \<open>
  \<open>MaxQueuePool\<close> and the level loop of \<open>write_pyramid\<close>, with the threads made
  explicit. The dispatching thread plans a level and creates the level's pool
  (\<open>BoundedSemaphore(max_workers)\<close> and a \<open>ThreadPoolExecutor\<close>); for every region it
  acquires a slot (\<open>self.pool_queue.acquire()\<close>), submits the job
  (\<open>self.pool.submit\<close>) and registers \<open>pool_queue_callback\<close> on the future
  (\<open>future.add_done_callback\<close>); after the last region it leaves the \<open>with\<close> block,
  which shuts the level's executor down and waits for its workers, and then waits for
  the level's futures (\<open>wait(jobs, return_when=ALL_COMPLETED)\<close>). The workers complete
  jobs, by returning or by raising, and the callback of a completed job releases one
  slot (\<open>self.pool_queue.release()\<close>); a callback registered on a future that is
  done already runs at once. A job records its level, whether it has completed,
  whether it raised, whether the callback is registered and whether the callback has
  run.
\<close>

record job =
  job_level :: nat
  job_done :: bool
  job_failed :: bool
  job_callback :: bool
  job_released :: bool

datatype pc = Planning | Dispatching | Acquired | Submitted | Draining | Waiting

record pool_state =
  ps_levels :: nat
  ps_bound :: nat
  ps_level :: nat
  ps_pc :: pc
  ps_permits :: nat
  ps_pending :: nat
  ps_jobs :: "job list"

text \<open>
  The events. \<open>Plan n\<close> is everything from \<open>dimensionRanges\<close> to \<open>requestRegions\<close>
  and the creation of the pool, for a level with \<open>n\<close> regions; \<open>Complete j raised\<close>
  is the end of job \<open>j\<close> in its worker; \<open>Callback j\<close> is \<open>pool_queue_callback\<close> for
  job \<open>j\<close>.
\<close>

datatype event =
    Plan nat
  | Acquire
  | Submit
  | AddCallback
  | Complete nat bool
  | Callback nat
  | LoopEnd
  | PoolExit
  | WaitAll

text \<open>
  One event. \<open>None\<close>: the event cannot happen in this state; for an event of the
  dispatching thread this means that the thread is blocked or elsewhere in its code.
\<close>

fun fire :: "event \<Rightarrow> pool_state \<Rightarrow> pool_state option" where
  "fire (Plan n) s =
     (if ps_pc s = Planning \<and> ps_level s < ps_levels s
      then Some (s\<lparr>ps_pc := Dispatching, ps_permits := ps_bound s, ps_pending := n\<rparr>)
      else None)"
| "fire Acquire s =
     (if ps_pc s = Dispatching \<and> 0 < ps_pending s \<and> 0 < ps_permits s
      then Some (s\<lparr>ps_pc := Acquired, ps_permits := ps_permits s - 1\<rparr>)
      else None)"
| "fire Submit s =
     (if ps_pc s = Acquired
      then Some (s\<lparr>ps_pc := Submitted,
                   ps_jobs := ps_jobs s @
                     [\<lparr>job_level = ps_level s, job_done = False, job_failed = False,
                       job_callback = False, job_released = False\<rparr>]\<rparr>)
      else None)"
| "fire AddCallback s =
     (if ps_pc s = Submitted \<and> ps_jobs s \<noteq> []
      then Some (s\<lparr>ps_pc := Dispatching, ps_pending := ps_pending s - 1,
                   ps_jobs := (ps_jobs s)[length (ps_jobs s) - 1 :=
                                (last (ps_jobs s))\<lparr>job_callback := True\<rparr>]\<rparr>)
      else None)"
| "fire (Complete j raised) s =
     (if j < length (ps_jobs s) \<and> \<not> job_done (ps_jobs s ! j)
      then Some (s\<lparr>ps_jobs := (ps_jobs s)[j := (ps_jobs s ! j)\<lparr>job_done := True, job_failed := raised\<rparr>]\<rparr>)
      else None)"
| "fire (Callback j) s =
     (if j < length (ps_jobs s) \<and> job_done (ps_jobs s ! j) \<and> job_callback (ps_jobs s ! j)
         \<and> \<not> job_released (ps_jobs s ! j)
      then Some (s\<lparr>ps_permits := ps_permits s + 1,
                   ps_jobs := (ps_jobs s)[j := (ps_jobs s ! j)\<lparr>job_released := True\<rparr>]\<rparr>)
      else None)"
| "fire LoopEnd s =
     (if ps_pc s = Dispatching \<and> ps_pending s = 0 then Some (s\<lparr>ps_pc := Draining\<rparr>) else None)"
| "fire PoolExit s =
     (if ps_pc s = Draining
         \<and> (\<forall>j \<in> set (ps_jobs s). job_level j = ps_level s \<longrightarrow> job_done j \<and> job_released j)
      then Some (s\<lparr>ps_pc := Waiting\<rparr>) else None)"
| "fire WaitAll s =
     (if ps_pc s = Waiting \<and> (\<forall>j \<in> set (ps_jobs s). job_level j = ps_level s \<longrightarrow> job_done j)
      then Some (s\<lparr>ps_pc := Planning, ps_level := ps_level s + 1\<rparr>) else None)"

text \<open>A schedule is a list of events; it runs as far as every event can happen.\<close>

fun run :: "event list \<Rightarrow> pool_state \<Rightarrow> pool_state option" where
  "run [] s = Some s"
| "run (e # es) s = (case fire e s of None \<Rightarrow> None | Some s' \<Rightarrow> run es s')"

definition initial :: "nat \<Rightarrow> nat \<Rightarrow> pool_state" where
  "initial levels bound =
     \<lparr>ps_levels = levels, ps_bound = bound, ps_level = 0, ps_pc = Planning,
      ps_permits = bound, ps_pending = 0, ps_jobs = []\<rparr>"

text \<open>The jobs that were accepted and have not completed, and those whose slot is still taken.\<close>

definition unfinished :: "pool_state \<Rightarrow> nat" where
  "unfinished s = length (filter (\<lambda>j. \<not> job_done j) (ps_jobs s))"

definition holding :: "pool_state \<Rightarrow> nat" where
  "holding s = length (filter (\<lambda>j. \<not> job_released j) (ps_jobs s))"

text \<open>
  What every reachable state satisfies. For the slots: the free slots, the jobs whose
  slot is still taken and a slot acquired for a job that is not submitted yet add up
  to the bound; only completed jobs have given their slot back; the jobs of earlier
  levels, and all jobs once the level's pool is left, have completed and given their
  slot back. For the levels: no job is of a later level than the current one, the jobs
  of earlier levels have completed, all jobs have completed once the level's pool is
  left, and the jobs were submitted in the order of their levels.
\<close>

definition pool_inv :: "pool_state \<Rightarrow> bool" where
  "pool_inv s \<longleftrightarrow>
     ps_permits s + holding s + (if ps_pc s = Acquired then 1 else 0) = ps_bound s
   \<and> (\<forall>j \<in> set (ps_jobs s). job_released j \<longrightarrow> job_done j)
   \<and> (\<forall>j \<in> set (ps_jobs s). job_level j \<le> ps_level s)
   \<and> (\<forall>j \<in> set (ps_jobs s). job_level j < ps_level s \<longrightarrow> job_done j \<and> job_released j)
   \<and> (ps_pc s = Planning \<or> ps_pc s = Waiting \<longrightarrow>
        (\<forall>j \<in> set (ps_jobs s). job_done j \<and> job_released j))"

definition level_inv :: "pool_state \<Rightarrow> bool" where
  "level_inv s \<longleftrightarrow>
     (\<forall>j \<in> set (ps_jobs s). job_level j \<le> ps_level s)
   \<and> (\<forall>j \<in> set (ps_jobs s). job_level j < ps_level s \<longrightarrow> job_done j)
   \<and> (ps_pc s = Planning \<or> ps_pc s = Waiting \<longrightarrow> (\<forall>j \<in> set (ps_jobs s). job_done j))
   \<and> sorted (map job_level (ps_jobs s))"

text \<open>A state in which no slot is free and every job that holds a slot is still running.\<close>

definition saturated :: "pool_state \<Rightarrow> bool" where
  "saturated s \<longleftrightarrow>
     pool_inv s \<and> ps_permits s = 0 \<and> ps_pc s \<noteq> Acquired
   \<and> (\<forall>j \<in> set (ps_jobs s). \<not> job_released j \<longrightarrow> \<not> job_done j)"

section \<open>Properties\<close>

subsection \<open>Lists, strings and paths\<close>

lemma concat_rows_nth:
  assumes "\<And>y. length (f y) = n" "j < length ys" "i < n"
  shows "concat (map f ys) ! (j * n + i) = f (ys ! j) ! i"
  using assms(2)
proof (induction ys arbitrary: j)
  case Nil
  then show ?case by simp
next
  case (Cons y ys)
  show ?case
  proof (cases j)
    case 0
    then show ?thesis using assms(1,3) by (simp add: nth_append)
  next
    case (Suc k)
    then have "k < length ys" using Cons.prems by simp
    from Cons.IH[OF this] show ?thesis using Suc assms(1)
      by (simp add: nth_append add.assoc)
  qed
qed

lemma concat_rows_length:
  assumes "\<And>y. length (f y) = n"
  shows "length (concat (map f ys)) = length ys * n"
  by (induction ys) (simp_all add: assms)

lemma str_nat_nonempty: "str_nat n \<noteq> []"
  by (subst str_nat.simps) simp

lemma digit_char_not_slash: "d < 10 \<Longrightarrow> digit_char d \<noteq> CHR ''/''"
proof -
  assume "d < 10"
  then have "''0123456789'' ! d \<in> set ''0123456789''" by (intro nth_mem) simp
  then show ?thesis unfolding digit_char_def by auto
qed

lemma str_nat_no_slash: "CHR ''/'' \<notin> set (str_nat n)"
proof (induction n rule: str_nat.induct)
  case (1 n)
  show ?case
  proof (cases "n < 10")
    case True
    then show ?thesis using digit_char_not_slash[of n] by (subst str_nat.simps) auto
  next
    case False
    have "n mod 10 < 10" by simp
    from digit_char_not_slash[OF this] 1[OF False] False show ?thesis
      by (subst str_nat.simps) auto
  qed
qed

lemma str_int_nonempty: "str_int i \<noteq> []"
  by (simp add: str_int_def str_nat_nonempty)

lemma str_int_no_slash: "CHR ''/'' \<notin> set (str_int i)"
  by (simp add: str_int_def str_nat_no_slash)

lemma strip_slashes_append_nonslash:
  "s \<noteq> [] \<Longrightarrow> last s \<noteq> CHR ''/'' \<Longrightarrow> strip_slashes (p @ s) = p @ s"
  by (cases s rule: rev_cases) (simp_all add: strip_slashes_def)

lemma strip_slashes_snoc_slash: "strip_slashes (p @ ''/'') = strip_slashes p"
  by (simp add: strip_slashes_def)

lemma strip_slashes_id: "p \<noteq> [] \<Longrightarrow> last p \<noteq> CHR ''/'' \<Longrightarrow> strip_slashes p = p"
  using strip_slashes_append_nonslash[of p "[]"] by simp

lemma strip_slashes_last:
  "\<not> all_slashes p \<Longrightarrow> strip_slashes p \<noteq> [] \<and> last (strip_slashes p) \<noteq> CHR ''/''"
proof (induction p rule: rev_induct)
  case Nil
  then show ?case by (simp add: all_slashes_def)
next
  case (snoc c p)
  show ?case
  proof (cases "c = CHR ''/''")
    case True
    then have "\<not> all_slashes p" using snoc.prems by (auto simp: all_slashes_def)
    from snoc.IH[OF this] True show ?thesis by (simp add: strip_slashes_def)
  next
    case False
    then show ?thesis by (simp add: strip_slashes_def)
  qed
qed

lemma not_all_slashes_last: "p \<noteq> [] \<Longrightarrow> last p \<noteq> CHR ''/'' \<Longrightarrow> \<not> all_slashes p"
  unfolding all_slashes_def using last_in_set by blast

lemma norm_path_idem: "norm_path (norm_path p) = norm_path p"
proof (cases "all_slashes p")
  case True
  then show ?thesis by (simp add: norm_path_def)
next
  case False
  note sl = strip_slashes_last[OF False]
  then have "\<not> all_slashes (strip_slashes p)" using not_all_slashes_last by blast
  then show ?thesis using False sl by (simp add: norm_path_def strip_slashes_id)
qed

lemma norm_path_id: "p \<noteq> [] \<Longrightarrow> last p \<noteq> CHR ''/'' \<Longrightarrow> norm_path p = p"
  by (simp add: norm_path_def not_all_slashes_last strip_slashes_id)

lemma head_append_noslash:
  "CHR ''/'' \<notin> set s \<Longrightarrow> rev (dropWhile (\<lambda>c. c \<noteq> CHR ''/'') (rev (p @ s))) = rev (dropWhile (\<lambda>c. c \<noteq> CHR ''/'') (rev p))"
  by (induction s rule: rev_induct) auto

lemma head_snoc_slash:
  "rev (dropWhile (\<lambda>c. c \<noteq> CHR ''/'') (rev (p @ ''/''))) = p @ ''/''"
  by simp

lemma parent_dir_join:
  assumes "s \<noteq> []" "CHR ''/'' \<notin> set s"
  shows "parent_dir (path_join td s) = norm_path td"
proof -
  have hd_s: "hd s \<noteq> CHR ''/''" using assms by (cases s) auto
  show ?thesis
  proof (cases "td = []")
    case True
    then show ?thesis using assms hd_s
      using head_append_noslash[of s "[]"]
      by (simp add: path_join_def parent_dir_def norm_path_def all_slashes_def)
  next
    case False
    show ?thesis
    proof (cases "last td = CHR ''/''")
      case True
      then have j: "path_join td s = td @ s" using hd_s by (simp add: path_join_def)
      obtain q where q: "td = q @ ''/''" using True False by (metis append_butlast_last_id)
      have "rev (dropWhile (\<lambda>c. c \<noteq> CHR ''/'') (rev (td @ s))) = td"
        using head_append_noslash[OF assms(2), of td] q by simp
      then show ?thesis using False by (simp add: j parent_dir_def norm_path_def)
    next
      case nl: False
      then have j: "path_join td s = (td @ ''/'') @ s" using hd_s False by (simp add: path_join_def)
      have h: "rev (dropWhile (\<lambda>c. c \<noteq> CHR ''/'') (rev ((td @ ''/'') @ s))) = td @ ''/''"
        using head_append_noslash[OF assms(2), of "td @ ''/''"] by simp
      have na: "\<not> all_slashes td" using False nl by (rule not_all_slashes_last)
      then have na': "\<not> all_slashes (td @ ''/'')" by (auto simp: all_slashes_def)
      show ?thesis unfolding j parent_dir_def h Let_def using na na'
        by (simp add: norm_path_def strip_slashes_snoc_slash del: append_assoc)
    qed
  qed
qed

lemma path_join_last:
  assumes "s \<noteq> []" "CHR ''/'' \<notin> set s"
  shows "path_join td s \<noteq> [] \<and> last (path_join td s) \<noteq> CHR ''/''"
proof -
  have "last s \<noteq> CHR ''/''" using assms by (metis last_in_set)
  then show ?thesis using assms(1) by (auto simp: path_join_def)
qed

lemma is_dir_norm:
  assumes "is_dir w td"
  shows "is_dir w (norm_path td)"
proof (cases "all_slashes td")
  case True
  then show ?thesis using assms by (simp add: norm_path_def)
next
  case False
  then have "td \<noteq> []" by (auto simp: all_slashes_def)
  then show ?thesis using False assms unfolding is_dir_def by (simp add: norm_path_idem)
qed

lemma create_x_directory_ready:
  assumes "tile_dir_ready self w td"
  shows "\<exists>w'. create_x_directory self td n w = Inr w' \<and> tile_dir_ready self w' td
           \<and> fs_files w' = fs_files w \<and> fs_dirs w \<subseteq> fs_dirs w'"
proof (cases "chunked self")
  case True
  then show ?thesis using assms by (simp add: create_x_directory_def)
next
  case False
  then have td: "is_dir w td" "norm_path td \<notin> fs_files w"
    using assms by (simp_all add: tile_dir_ready_def)
  define xd where "xd = path_join td (str_int n)"
  have xl: "xd \<noteq> [] \<and> last xd \<noteq> CHR ''/''"
    unfolding xd_def by (rule path_join_last[OF str_int_nonempty str_int_no_slash])
  then have nx: "norm_path xd = xd" by (simp add: norm_path_id)
  have par: "parent_dir xd = norm_path td"
    unfolding xd_def by (rule parent_dir_join[OF str_int_nonempty str_int_no_slash])
  show ?thesis
  proof (cases "path_exists w xd")
    case True
    then show ?thesis using False assms by (simp add: create_x_directory_def xd_def[symmetric])
  next
    case ne: False
    have "os_mkdir xd w = Inr (w\<lparr>fs_dirs := insert xd (fs_dirs w)\<rparr>)"
      using xl ne td is_dir_norm[OF td(1)]
      by (simp add: os_mkdir_def nx par norm_path_idem)
    moreover have "tile_dir_ready self (w\<lparr>fs_dirs := insert xd (fs_dirs w)\<rparr>) td"
      using td by (auto simp: tile_dir_ready_def is_dir_def)
    ultimately show ?thesis using False ne
      by (auto simp: create_x_directory_def xd_def[symmetric])
  qed
qed

lemma for_each_append:
  "for_each body (xs @ ys) s = (case for_each body xs s of Inl e \<Rightarrow> Inl e | Inr s' \<Rightarrow> for_each body ys s')"
  by (induction xs arbitrary: s) (auto split: sum.splits)

lemma patch_row:
  assumes "tile_dir_ready self w td"
  shows "\<exists>w'. for_each (\<lambda>x (patches, patch_identifier, w).
             case create_x_directory self td (g x) w of
               Inl e \<Rightarrow> Inl e
             | Inr w' \<Rightarrow> Inr (patches @ [f x], patch_identifier @ [(x, y)], w'))
           xs (ps, ids, w) = Inr (ps @ map f xs, ids @ map (\<lambda>x. (x, y)) xs, w')
         \<and> tile_dir_ready self w' td"
  using assms
proof (induction xs arbitrary: ps ids w)
  case Nil
  then show ?case by simp
next
  case (Cons x xs)
  from create_x_directory_ready[OF Cons.prems, of "g x"] obtain w1 where
    w1: "create_x_directory self td (g x) w = Inr w1" "tile_dir_ready self w1 td" by blast
  from Cons.IH[OF w1(2), of "ps @ [f x]" "ids @ [(x, y)]"] w1(1)
  show ?case by simp
qed

lemma create_patch_list_grid:
  assumes "tile_dir_ready self w td"
  shows "\<exists>w'. create_patch_list self image_x_end image_y_end tiles tile_size origin level td w =
           Inr (concat (map (\<lambda>y. map (\<lambda>x. patch_at image_x_end image_y_end tile_size origin level x y)
                               (py_range (fst tiles))) (py_range (snd tiles))),
                concat (map (\<lambda>y. map (\<lambda>x. (x, y)) (py_range (fst tiles))) (py_range (snd tiles))),
                w')
         \<and> tile_dir_ready self w' td"
proof -
  define body where "body = (\<lambda>y. for_each (\<lambda>x (patches, patch_identifier, w).
             case create_x_directory self td (x * tile_width self) w of
               Inl e \<Rightarrow> Inl e
             | Inr w' \<Rightarrow> Inr (patches @ [patch_at image_x_end image_y_end tile_size origin level x y],
                             patch_identifier @ [(x, y)], w'))
           (py_range (fst tiles)))"
  have outer: "tile_dir_ready self w td \<Longrightarrow>
      \<exists>w'. for_each body ys (ps, ids, w) =
         Inr (ps @ concat (map (\<lambda>y. map (\<lambda>x. patch_at image_x_end image_y_end tile_size origin level x y)
                               (py_range (fst tiles))) ys),
              ids @ concat (map (\<lambda>y. map (\<lambda>x. (x, y)) (py_range (fst tiles))) ys), w')
        \<and> tile_dir_ready self w' td" for ys ps ids w
  proof (induction ys arbitrary: ps ids w)
    case Nil
    then show ?case by simp
  next
    case (Cons y ys)
    from patch_row[OF Cons.prems, where g = "\<lambda>x. x * tile_width self"
        and f = "\<lambda>x. patch_at image_x_end image_y_end tile_size origin level x y" and y = y
        and xs = "py_range (fst tiles)" and ps = ps and ids = ids]
    obtain w1 where w1: "body y (ps, ids, w) =
        Inr (ps @ map (\<lambda>x. patch_at image_x_end image_y_end tile_size origin level x y) (py_range (fst tiles)),
             ids @ map (\<lambda>x. (x, y)) (py_range (fst tiles)), w1)" "tile_dir_ready self w1 td"
      unfolding body_def by blast
    from Cons.IH[OF w1(2),
        of "ps @ map (\<lambda>x. patch_at image_x_end image_y_end tile_size origin level x y) (py_range (fst tiles))"
           "ids @ map (\<lambda>x. (x, y)) (py_range (fst tiles))"] w1(1)
    show ?case by simp
  qed
  have "create_patch_list self image_x_end image_y_end tiles tile_size origin level td w
        = for_each body (py_range (snd tiles)) ([], [], w)"
    unfolding create_patch_list_def body_def patch_at_def Let_def by simp
  then show ?thesis using outer[OF assms, of "py_range (snd tiles)" "[]" "[]"] by simp
qed

lemma math_ceil_div: "math_ceil (of_int a / of_int b) = - (- a div b)"
  unfolding math_ceil_def by (rule ceiling_divide_eq_div)

lemma grid_size_eq:
  assumes "dr_step drx \<noteq> 0" "dr_step dry \<noteq> 0" "tile_width self \<noteq> 0" "tile_height self \<noteq> 0"
  shows "grid_size self (drx, dry) =
     Inr (- (- (dr_end drx - dr_origin drx) div dr_step drx),
          - (- (dr_end dry - dr_origin dry) div dr_step dry),
          - (- (- (- (dr_end drx - dr_origin drx) div dr_step drx)) div tile_width self),
          - (- (- (- (dr_end dry - dr_origin dry) div dr_step dry)) div tile_height self))"
proof -
  have sx: "get_size drx = Inr (of_int (dr_end drx - dr_origin drx) / of_int (dr_step drx))"
    using assms(1) by (simp add: get_size_def py_truediv_def)
  have sy: "get_size dry = Inr (of_int (dr_end dry - dr_origin dry) / of_int (dr_step dry))"
    using assms(2) by (simp add: get_size_def py_truediv_def)
  show ?thesis
    unfolding grid_size_def fst_conv snd_conv sx sy sum.case Let_def math_ceil_div py_truediv_def
    using assms(3,4) by (simp add: math_ceil_div del: of_int_diff of_int_minus)
qed

lemma ceil_div_bounds:
  fixes a b :: int
  assumes "0 < b"
  shows "a \<le> (- (- a div b)) * b" "(- (- a div b) - 1) * b < a"
proof -
  define q r where "q = - a div b" and "r = (- a) mod b"
  have m: "- a = q * b + r" unfolding q_def r_def by simp
  have r: "0 \<le> r" "r < b" using assms unfolding r_def by simp_all
  have e1: "(- q) * b = - (q * b)" by simp
  have e2: "(- q - 1) * b = - (q * b) - b" by (simp add: algebra_simps)
  show "a \<le> (- (- a div b)) * b" unfolding q_def[symmetric] e1 using m r by linarith
  show "(- (- a div b) - 1) * b < a" unfolding q_def[symmetric] e2 using m r by linarith
qed

lemma ceil_div_nonneg:
  fixes a b :: int
  assumes "0 < b" "0 \<le> a"
  shows "0 \<le> - (- a div b)"
proof -
  have "- a div b \<le> 0" using assms by (simp add: div_nonpos_pos_le0)
  then show ?thesis by simp
qed

lemma grid_length:
  "length (concat (map (\<lambda>y. map (\<lambda>x. f x y) (py_range xt)) (py_range yt))) = nat xt * nat yt"
  using concat_rows_length[of "\<lambda>y. map (\<lambda>x. f x y) (py_range xt)" "nat xt" "py_range yt"]
  by (simp add: py_range_def mult.commute)

lemma grid_nth:
  assumes "k < nat xt * nat yt"
  shows "concat (map (\<lambda>y. map (\<lambda>x. f x y) (py_range xt)) (py_range yt)) ! k
           = f (int (k mod nat xt)) (int (k div nat xt))"
proof -
  have n: "0 < nat xt" using assms by (cases "nat xt") auto
  have j: "k div nat xt < length (py_range yt)"
    using assms n by (simp add: py_range_def less_mult_imp_div_less mult.commute)
  have i: "k mod nat xt < nat xt" using n by simp
  have "concat (map (\<lambda>y. map (\<lambda>x. f x y) (py_range xt)) (py_range yt)) ! (k div nat xt * nat xt + k mod nat xt)
      = map (\<lambda>x. f x (py_range yt ! (k div nat xt))) (py_range xt) ! (k mod nat xt)"
    by (rule concat_rows_nth[OF _ j i]) (simp add: py_range_def)
  also have "\<dots> = f (int (k mod nat xt)) (int (k div nat xt))"
    using i j by (simp add: py_range_def)
  finally show ?thesis by simp
qed

lemma cell_index:
  assumes "0 \<le> x" "x < xt" "0 \<le> y" "y < yt"
  shows "nat (y * xt + x) < nat xt * nat yt"
    and "nat (y * xt + x) mod nat xt = nat x"
    and "nat (y * xt + x) div nat xt = nat y"
proof -
  have e: "nat (y * xt + x) = nat y * nat xt + nat x"
    using assms by (simp add: nat_add_distrib nat_mult_distrib)
  have lx: "nat x < nat xt" using assms by simp
  have ly: "nat y < nat yt" using assms by simp
  show "nat (y * xt + x) mod nat xt = nat x" using lx by (simp add: e)
  show "nat (y * xt + x) div nat xt = nat y" using lx by (simp add: e)
  have "nat y * nat xt + nat x < (nat y + 1) * nat xt" using lx by simp
  also have "\<dots> \<le> nat yt * nat xt"
  proof (rule mult_le_mono1)
    show "nat y + 1 \<le> nat yt" using ly by linarith
  qed
  finally have "nat y * nat xt + nat x < nat xt * nat yt" by (simp add: mult.commute)
  then show "nat (y * xt + x) < nat xt * nat yt" unfolding e .
qed

lemma index_cell:
  assumes "k < nat xt * nat yt"
  shows "0 \<le> int (k mod nat xt)" "int (k mod nat xt) < xt" "0 \<le> int (k div nat xt)" "int (k div nat xt) < yt"
proof -
  have n: "0 < nat xt" using assms by (cases "nat xt") auto
  show "0 \<le> int (k mod nat xt)" "0 \<le> int (k div nat xt)" by simp_all
  have "k mod nat xt < nat xt" using n by simp
  then show "int (k mod nat xt) < xt" by linarith
  have "k div nat xt < nat yt" using assms n by (simp add: less_mult_imp_div_less mult.commute)
  then show "int (k div nat xt) < yt" by linarith
qed

lemma grid_ids_distinct:
  "distinct (concat (map (\<lambda>y. map (\<lambda>x. (x, y)) (py_range xt)) (py_range yt)))"
proof -
  let ?g = "concat (map (\<lambda>y. map (\<lambda>x. (x, y)) (py_range xt)) (py_range yt))"
  have "?g ! i \<noteq> ?g ! j" if "i < length ?g" "j < length ?g" "i \<noteq> j" for i j
  proof -
    have i: "i < nat xt * nat yt" and j: "j < nat xt * nat yt" using that by (simp_all add: grid_length)
    have "i = i div nat xt * nat xt + i mod nat xt" "j = j div nat xt * nat xt + j mod nat xt" by simp_all
    then have "i mod nat xt \<noteq> j mod nat xt \<or> i div nat xt \<noteq> j div nat xt" using that(3) by metis
    then show ?thesis by (simp add: grid_nth[OF i] grid_nth[OF j])
  qed
  then show ?thesis by (simp add: distinct_conv_nth)
qed

subsection \<open>The patches of a level\<close>

text \<open>
  Claim C2. For a level \<open>L\<close> with \<open>scale = 2 ^ L\<close>, \<open>create_patch_list\<close> returns, at
  position \<open>y * x_tiles + x\<close> (row-major: \<open>y\<close> outer, \<open>x\<close> inner) for every grid cell
  \<open>0 \<le> x < x_tiles\<close>, \<open>0 \<le> y < y_tiles\<close>, the patch
  \<open>[x_start, x_end, y_start, y_end, L]\<close> with \<open>x_start = origin_x + x * tile_width * scale\<close>,
  \<open>x_end = min (x_start + tile_width * scale - scale) image_x_end\<close>, and the same for
  \<open>y\<close>; the list has \<open>x_tiles * y_tiles\<close> entries. The call returns whenever the column
  directories can be created (always, for the chunked formats).
\<close>

theorem create_patch_list_cells:
  assumes "tile_dir_ready self w tile_directory"
  shows "\<exists>patches patch_identifier w'.
     create_patch_list self image_x_end image_y_end (x_tiles, y_tiles) (tw, th) (ox, oy) level
        tile_directory w = Inr (patches, patch_identifier, w')
     \<and> length patches = nat x_tiles * nat y_tiles
     \<and> (\<forall>x y. 0 \<le> x \<and> x < x_tiles \<and> 0 \<le> y \<and> y < y_tiles \<longrightarrow>
           patches ! nat (y * x_tiles + x) =
             (ox + x * tw * 2 ^ level,
              min (ox + x * tw * 2 ^ level + tw * 2 ^ level - 2 ^ level) image_x_end,
              oy + y * th * 2 ^ level,
              min (oy + y * th * 2 ^ level + th * 2 ^ level - 2 ^ level) image_y_end,
              level))"
proof -
  from create_patch_list_grid[OF assms, of image_x_end image_y_end "(x_tiles, y_tiles)" "(tw, th)" "(ox, oy)" level]
  obtain w' where r: "create_patch_list self image_x_end image_y_end (x_tiles, y_tiles) (tw, th) (ox, oy) level
        tile_directory w =
      Inr (concat (map (\<lambda>y. map (\<lambda>x. patch_at image_x_end image_y_end (tw, th) (ox, oy) level x y)
                               (py_range x_tiles)) (py_range y_tiles)),
           concat (map (\<lambda>y. map (\<lambda>x. (x, y)) (py_range x_tiles)) (py_range y_tiles)), w')"
    by auto
  have "concat (map (\<lambda>y. map (\<lambda>x. patch_at image_x_end image_y_end (tw, th) (ox, oy) level x y)
                               (py_range x_tiles)) (py_range y_tiles)) ! nat (y * x_tiles + x)
        = (ox + x * tw * 2 ^ level,
              min (ox + x * tw * 2 ^ level + tw * 2 ^ level - 2 ^ level) image_x_end,
              oy + y * th * 2 ^ level,
              min (oy + y * th * 2 ^ level + th * 2 ^ level - 2 ^ level) image_y_end,
              level)"
    if "0 \<le> x \<and> x < x_tiles \<and> 0 \<le> y \<and> y < y_tiles" for x y
  proof -
    note c = cell_index[of x x_tiles y y_tiles]
    have k: "nat (y * x_tiles + x) < nat x_tiles * nat y_tiles" using that c(1) by blast
    have m: "nat (y * x_tiles + x) mod nat x_tiles = nat x" using that c(2) by blast
    have d: "nat (y * x_tiles + x) div nat x_tiles = nat y" using that c(3) by blast
    show ?thesis unfolding grid_nth[OF k] m d using that by (simp add: patch_at_def mult.assoc)
  qed
  then show ?thesis using r by (simp add: grid_length)
qed

theorem create_patch_list_cells_witness:
  "tile_dir_ready (scenario_self ''zarr'') scenario_world ''out/pyramid.zarr''
   \<and> (\<exists>patches patch_identifier w'.
        create_patch_list (scenario_self ''zarr'') 1198 1198 (2, 2) (512, 512) (0, 0) 1
          ''out/pyramid.zarr'' scenario_world = Inr (patches, patch_identifier, w')
      \<and> length patches = 4
      \<and> patches ! 3 = (1024, 1198, 1024, 1198, 1))"
proof -
  have h: "tile_dir_ready (scenario_self ''zarr'') scenario_world ''out/pyramid.zarr''"
    by (simp add: tile_dir_ready_def chunked_def scenario_self_def)
  from create_patch_list_cells[OF h, of 1198 1198 2 2 512 512 0 0 1]
  obtain patches patch_identifier w' where
    r: "create_patch_list (scenario_self ''zarr'') 1198 1198 (2, 2) (512, 512) (0, 0) 1
          ''out/pyramid.zarr'' scenario_world = Inr (patches, patch_identifier, w')"
    and l: "length patches = nat 2 * nat 2"
    and c: "\<forall>x y. 0 \<le> x \<and> x < 2 \<and> 0 \<le> y \<and> y < 2 \<longrightarrow>
           patches ! nat (y * 2 + x) =
             (0 + x * 512 * 2 ^ 1, min (0 + x * 512 * 2 ^ 1 + 512 * 2 ^ 1 - 2 ^ 1) 1198,
              0 + y * 512 * 2 ^ 1, min (0 + y * 512 * 2 ^ 1 + 512 * 2 ^ 1 - 2 ^ 1) 1198, 1)"
    by blast
  from c[rule_format, of 1 1] have "patches ! 3 = (1024, 1198, 1024, 1198, 1)" by simp
  then show ?thesis using h r l by simp
qed

lemma patch_at_disjoint:
  assumes "0 < fst tile_size" "0 < snd tile_size" "(x1, y1) \<noteq> (x2, y2)"
  shows "patch_rect (patch_at ixe iye tile_size origin level x1 y1)
       \<inter> patch_rect (patch_at ixe iye tile_size origin level x2 y2) = {}"
proof -
  have s: "(1::int) \<le> 2 ^ level" by simp
  have sep: "o1 + a * (t * 2 ^ level) + t * 2 ^ level - 2 ^ level < o1 + b * (t * 2 ^ level)"
    if "a < b" "0 < t" for a b t o1 :: int
  proof -
    have T: "0 < t * 2 ^ level" using that by simp
    have "a + 1 \<le> b" using that by simp
    then have "(a + 1) * (t * 2 ^ level) \<le> b * (t * 2 ^ level)" using T by (intro mult_right_mono) simp_all
    moreover have "(a + 1) * (t * 2 ^ level) = a * (t * 2 ^ level) + t * 2 ^ level"
      by (simp add: algebra_simps)
    ultimately show ?thesis using s by linarith
  qed
  consider "x1 < x2" | "x2 < x1" | "y1 < y2" | "y2 < y1" using assms(3) by force
  then show ?thesis
  proof cases
    case 1
    from sep[OF 1 assms(1), of "fst origin"] show ?thesis
      by (auto simp: patch_rect_def patch_at_def)
  next
    case 2
    from sep[OF 2 assms(1), of "fst origin"] show ?thesis
      by (auto simp: patch_rect_def patch_at_def)
  next
    case 3
    from sep[OF 3 assms(2), of "snd origin"] show ?thesis
      by (auto simp: patch_rect_def patch_at_def)
  next
    case 4
    from sep[OF 4 assms(2), of "snd origin"] show ?thesis
      by (auto simp: patch_rect_def patch_at_def)
  qed
qed

lemma axis_cover:
  fixes i t ext e o1 :: int
  assumes t: "0 < t" and i: "0 \<le> i" "i < - (- ext div 2 ^ level)" and ext: "ext = e - o1"
  shows "0 \<le> i div t" "i div t < - (- (- (- ext div 2 ^ level)) div t)"
    "o1 + (i div t) * (t * 2 ^ level) \<le> o1 + i * 2 ^ level"
    "o1 + i * 2 ^ level \<le> min (o1 + (i div t) * (t * 2 ^ level) + t * 2 ^ level - 2 ^ level) e"
proof -
  define s :: int where "s = 2 ^ level"
  define R where "R = - (- ext div s)"
  define n where "n = - (- R div t)"
  have s: "0 < s" unfolding s_def by simp
  have iR: "i < R" using i(2) unfolding R_def s_def .
  note Rb = ceil_div_bounds[OF s, of ext, folded R_def]
  note nb = ceil_div_bounds[OF t, of R, folded n_def]
  have im: "i = (i div t) * t + i mod t" by simp
  have mb: "0 \<le> i mod t" "i mod t < t" using t by simp_all
  show "0 \<le> i div t" using i(1) t by (simp add: pos_imp_zdiv_nonneg_iff)
  have "i div t < n"
  proof (rule ccontr)
    assume "\<not> i div t < n"
    then have "n \<le> i div t" by simp
    then have "n * t \<le> (i div t) * t" using t by (intro mult_right_mono) simp_all
    then show False using im mb nb(1) iR by linarith
  qed
  then show "i div t < - (- (- (- ext div 2 ^ level)) div t)" unfolding n_def R_def s_def .
  have e1: "(i div t) * (t * s) = ((i div t) * t) * s" by simp
  have "(i div t) * t \<le> i" using im mb by linarith
  then have "((i div t) * t) * s \<le> i * s" using s by (intro mult_right_mono) simp_all
  then show "o1 + (i div t) * (t * 2 ^ level) \<le> o1 + i * 2 ^ level" unfolding s_def[symmetric] e1 by simp
  have "i \<le> (i div t) * t + t - 1" using im mb by linarith
  then have "i * s \<le> ((i div t) * t + t - 1) * s" using s by (intro mult_right_mono) simp_all
  then have a: "i * s \<le> (i div t) * (t * s) + t * s - s" by (simp add: algebra_simps)
  have "i \<le> R - 1" using iR by simp
  then have "i * s \<le> (R - 1) * s" using s by (intro mult_right_mono) simp_all
  then have b: "i * s \<le> e - o1" using Rb(2) ext by linarith
  show "o1 + i * 2 ^ level \<le> min (o1 + (i div t) * (t * 2 ^ level) + t * 2 ^ level - 2 ^ level) e"
    unfolding s_def[symmetric] using a b by simp
qed

lemma patch_at_clipped:
  assumes "0 < fst tile_size" "0 < snd tile_size" "0 \<le> x" "0 \<le> y"
  shows "patch_rect (patch_at ixe iye tile_size origin level x y)
           \<subseteq> {fst origin..ixe} \<times> {snd origin..iye}"
proof -
  have "0 \<le> x * (fst tile_size * 2 ^ level)" "0 \<le> y * (snd tile_size * 2 ^ level)"
    using assms by simp_all
  then show ?thesis by (auto simp: patch_rect_def patch_at_def)
qed

text \<open>
  Claim C1. For a level of step \<open>2 ^ level\<close> whose ranges are not empty, with positive
  tile sizes, all sizes below \<open>2^53\<close>: \<open>write_pyramid\<close> computes \<open>resolution_x_end\<close>
  and \<open>resolution_y_end\<close> as the ceilings of \<open>(end - origin) / step\<close> and \<open>x_tiles\<close>,
  \<open>y_tiles\<close> as the ceilings of \<open>resolution_x_end / tile_width\<close> and
  \<open>resolution_y_end / tile_height\<close>; \<open>create_patch_list\<close> then returns exactly
  \<open>x_tiles * y_tiles\<close> patches, each paired (by position) with a patch identifier
  \<open>(x, y)\<close> of the grid, no identifier occurring twice; the patches are pairwise
  disjoint rectangles of level-0 coordinates, they lie within the image bounds
  \<open>[origin, end]\<close>, and together they cover the level-0 position
  \<open>origin + i * 2 ^ level\<close> of every pixel \<open>(i, j)\<close> of
  \<open>[0, resolution_x_end) \<times> [0, resolution_y_end)\<close>.
\<close>

theorem patch_grid_partition:
  assumes ready: "tile_dir_ready self w tile_directory"
    and tile: "0 < tile_width self" "0 < tile_height self"
    and step: "dr_step drx = 2 ^ level" "dr_step dry = 2 ^ level"
    and extent: "dr_origin drx \<le> dr_end drx" "dr_origin dry \<le> dr_end dry"
    and exact: "exact_quotient (dr_end drx - dr_origin drx) (dr_step drx)"
      "exact_quotient (dr_end dry - dr_origin dry) (dr_step dry)"
      "tile_width self < 2 ^ 53" "tile_height self < 2 ^ 53"
  shows "\<exists>resolution_x_end resolution_y_end x_tiles y_tiles patches patch_identifier w'.
      grid_size self (drx, dry) = Inr (resolution_x_end, resolution_y_end, x_tiles, y_tiles)
    \<and> resolution_x_end = \<lceil>(of_int (dr_end drx - dr_origin drx) :: rat) / of_int (dr_step drx)\<rceil>
    \<and> resolution_y_end = \<lceil>(of_int (dr_end dry - dr_origin dry) :: rat) / of_int (dr_step dry)\<rceil>
    \<and> x_tiles = \<lceil>(of_int resolution_x_end :: rat) / of_int (tile_width self)\<rceil>
    \<and> y_tiles = \<lceil>(of_int resolution_y_end :: rat) / of_int (tile_height self)\<rceil>
    \<and> create_patch_list self (dr_end drx) (dr_end dry) (x_tiles, y_tiles)
          (tile_width self, tile_height self) (dr_origin drx, dr_origin dry) level tile_directory w
        = Inr (patches, patch_identifier, w')
    \<and> int (length patches) = x_tiles * y_tiles
    \<and> length patch_identifier = length patches
    \<and> distinct patch_identifier
    \<and> (\<forall>k < length patches.
          0 \<le> fst (patch_identifier ! k) \<and> fst (patch_identifier ! k) < x_tiles
        \<and> 0 \<le> snd (patch_identifier ! k) \<and> snd (patch_identifier ! k) < y_tiles
        \<and> k = nat (snd (patch_identifier ! k) * x_tiles + fst (patch_identifier ! k)))
    \<and> (\<forall>j k. j < k \<and> k < length patches \<longrightarrow>
          patch_rect (patches ! j) \<inter> patch_rect (patches ! k) = {})
    \<and> (\<forall>k < length patches.
          patch_rect (patches ! k) \<subseteq> {dr_origin drx..dr_end drx} \<times> {dr_origin dry..dr_end dry})
    \<and> (\<forall>i j. 0 \<le> i \<and> i < resolution_x_end \<and> 0 \<le> j \<and> j < resolution_y_end \<longrightarrow>
          (\<exists>k < length patches.
             (dr_origin drx + i * 2 ^ level, dr_origin dry + j * 2 ^ level) \<in> patch_rect (patches ! k)))"
proof -
  define ex where "ex = dr_end drx - dr_origin drx"
  define ey where "ey = dr_end dry - dr_origin dry"
  define Rx where "Rx = - (- ex div 2 ^ level)"
  define Ry where "Ry = - (- ey div 2 ^ level)"
  define xt where "xt = - (- Rx div tile_width self)"
  define yt where "yt = - (- Ry div tile_height self)"
  define pat where "pat = (\<lambda>x y. patch_at (dr_end drx) (dr_end dry) (tile_width self, tile_height self)
                              (dr_origin drx, dr_origin dry) level x y)"
  define ps where "ps = concat (map (\<lambda>y. map (\<lambda>x. pat x y) (py_range xt)) (py_range yt))"
  define ids where "ids = concat (map (\<lambda>y. map (\<lambda>x. (x, y)) (py_range xt)) (py_range yt))"
  have s0: "(0::int) < 2 ^ level" by simp
  have gs: "grid_size self (drx, dry) = Inr (Rx, Ry, xt, yt)"
    using grid_size_eq[of drx dry self] tile step
    by (simp add: Rx_def Ry_def xt_def yt_def ex_def ey_def)
  have Rx_c: "Rx = \<lceil>(of_int (dr_end drx - dr_origin drx) :: rat) / of_int (dr_step drx)\<rceil>"
    unfolding Rx_def ex_def step using ceiling_divide_eq_div[of "dr_end drx - dr_origin drx" "2 ^ level", where ?'a = rat]
    by simp
  have Ry_c: "Ry = \<lceil>(of_int (dr_end dry - dr_origin dry) :: rat) / of_int (dr_step dry)\<rceil>"
    unfolding Ry_def ey_def step using ceiling_divide_eq_div[of "dr_end dry - dr_origin dry" "2 ^ level", where ?'a = rat]
    by simp
  have xt_c: "xt = \<lceil>(of_int Rx :: rat) / of_int (tile_width self)\<rceil>"
    unfolding xt_def by (simp add: ceiling_divide_eq_div)
  have yt_c: "yt = \<lceil>(of_int Ry :: rat) / of_int (tile_height self)\<rceil>"
    unfolding yt_def by (simp add: ceiling_divide_eq_div)
  have Rx0: "0 \<le> Rx" unfolding Rx_def using extent(1) by (intro ceil_div_nonneg s0) (simp add: ex_def)
  have Ry0: "0 \<le> Ry" unfolding Ry_def using extent(2) by (intro ceil_div_nonneg s0) (simp add: ey_def)
  have xt0: "0 \<le> xt" unfolding xt_def by (rule ceil_div_nonneg[OF tile(1) Rx0])
  have yt0: "0 \<le> yt" unfolding yt_def by (rule ceil_div_nonneg[OF tile(2) Ry0])
  from create_patch_list_grid[OF ready, of "dr_end drx" "dr_end dry" "(xt, yt)"
      "(tile_width self, tile_height self)" "(dr_origin drx, dr_origin dry)" level]
  obtain w' where cpl: "create_patch_list self (dr_end drx) (dr_end dry) (xt, yt)
          (tile_width self, tile_height self) (dr_origin drx, dr_origin dry) level tile_directory w
        = Inr (ps, ids, w')"
    unfolding ps_def ids_def pat_def by auto
  have len: "length ps = nat xt * nat yt" unfolding ps_def by (rule grid_length)
  have leni: "length ids = nat xt * nat yt" unfolding ids_def by (rule grid_length)
  have len_int: "int (length ps) = xt * yt" using xt0 yt0 by (simp add: len nat_mult_distrib)
  have ps_nth: "ps ! k = pat (int (k mod nat xt)) (int (k div nat xt))" if "k < length ps" for k
    unfolding ps_def using that len by (intro grid_nth) simp
  have ids_nth: "ids ! k = (int (k mod nat xt), int (k div nat xt))" if "k < length ps" for k
    unfolding ids_def using that len by (intro grid_nth) simp
  have dist: "distinct ids" unfolding ids_def by (rule grid_ids_distinct)
  have idx: "0 \<le> fst (ids ! k) \<and> fst (ids ! k) < xt \<and> 0 \<le> snd (ids ! k) \<and> snd (ids ! k) < yt
        \<and> k = nat (snd (ids ! k) * xt + fst (ids ! k))" if "k < length ps" for k
  proof -
    have k: "k < nat xt * nat yt" using that len by simp
    note c = index_cell[OF k]
    have "int k = int (k div nat xt) * int (nat xt) + int (k mod nat xt)"
      by (metis div_mult_mod_eq of_nat_add of_nat_mult)
    then have "int k = int (k div nat xt) * xt + int (k mod nat xt)" using xt0 by simp
    then have "k = nat (int (k div nat xt) * xt + int (k mod nat xt))" by linarith
    then show ?thesis using c by (simp add: ids_nth[OF that])
  qed
  have disj: "patch_rect (ps ! j) \<inter> patch_rect (ps ! k) = {}" if "j < k \<and> k < length ps" for j k
  proof -
    have j: "j < length ps" and k: "k < length ps" and ne: "j \<noteq> k" using that by simp_all
    have "j = j div nat xt * nat xt + j mod nat xt" "k = k div nat xt * nat xt + k mod nat xt" by simp_all
    then have "j mod nat xt \<noteq> k mod nat xt \<or> j div nat xt \<noteq> k div nat xt" using ne by metis
    then have "(int (j mod nat xt), int (j div nat xt)) \<noteq> (int (k mod nat xt), int (k div nat xt))" by simp
    then show ?thesis unfolding ps_nth[OF j] ps_nth[OF k] pat_def
      using tile by (intro patch_at_disjoint) simp_all
  qed
  have clip: "patch_rect (ps ! k) \<subseteq> {dr_origin drx..dr_end drx} \<times> {dr_origin dry..dr_end dry}"
    if "k < length ps" for k
    unfolding ps_nth[OF that] pat_def
    using patch_at_clipped[of "(tile_width self, tile_height self)" "int (k mod nat xt)" "int (k div nat xt)"
        "dr_end drx" "dr_end dry" "(dr_origin drx, dr_origin dry)" level] tile
    by simp
  have cover: "\<exists>k < length ps. (dr_origin drx + i * 2 ^ level, dr_origin dry + j * 2 ^ level) \<in> patch_rect (ps ! k)"
    if "0 \<le> i \<and> i < Rx \<and> 0 \<le> j \<and> j < Ry" for i j
  proof -
    define x where "x = i div tile_width self"
    define y where "y = j div tile_height self"
    have i: "0 \<le> i" "i < - (- ex div 2 ^ level)" and j: "0 \<le> j" "j < - (- ey div 2 ^ level)"
      using that by (simp_all add: Rx_def Ry_def)
    note cx = axis_cover[OF tile(1) i ex_def, folded x_def Rx_def, folded xt_def]
    note cy = axis_cover[OF tile(2) j ey_def, folded y_def Ry_def, folded yt_def]
    note c = cell_index[OF cx(1,2) cy(1,2)]
    have k: "nat (y * xt + x) < length ps" using c(1) len by simp
    have "ps ! nat (y * xt + x) = pat x y"
      unfolding ps_nth[OF k] c(2,3) using cx(1) cy(1) by simp
    moreover have "(dr_origin drx + i * 2 ^ level, dr_origin dry + j * 2 ^ level) \<in> patch_rect (pat x y)"
      unfolding pat_def patch_rect_def patch_at_def using cx(3,4) cy(3,4) by simp
    ultimately show ?thesis using k by metis
  qed
  show ?thesis
    apply (rule exI[of _ Rx], rule exI[of _ Ry], rule exI[of _ xt], rule exI[of _ yt])
    apply (rule exI[of _ ps], rule exI[of _ ids], rule exI[of _ w'])
    using gs Rx_c Ry_c xt_c yt_c cpl len_int leni len dist idx disj clip cover
    by (intro conjI allI impI) simp_all
qed

theorem patch_grid_partition_witness:
  "tile_dir_ready (scenario_self ''zarr'') scenario_world ''out/pyramid.zarr''
   \<and> 0 < tile_width (scenario_self ''zarr'') \<and> 0 < tile_height (scenario_self ''zarr'')
   \<and> dr_step (0, 1, 599) = 2 ^ 0 \<and> dr_origin (0, 1, 599) \<le> dr_end (0, 1, 599)
   \<and> exact_quotient (dr_end (0, 1, 599) - dr_origin (0, 1, 599)) (dr_step (0, 1, 599))
   \<and> tile_width (scenario_self ''zarr'') < 2 ^ 53 \<and> tile_height (scenario_self ''zarr'') < 2 ^ 53
   \<and> (\<exists>patches patch_identifier w'.
        grid_size (scenario_self ''zarr'') ((0, 1, 599), (0, 1, 599)) = Inr (599, 599, 2, 2)
      \<and> create_patch_list (scenario_self ''zarr'') 599 599 (2, 2) (512, 512) (0, 0) 0
          ''out/pyramid.zarr'' scenario_world = Inr (patches, patch_identifier, w')
      \<and> length patches = 4 \<and> length patch_identifier = 4
      \<and> distinct patch_identifier
      \<and> patch_identifier ! 1 = (1, 0) \<and> patch_identifier ! 2 = (0, 1)
      \<and> patch_rect (patches ! 0) \<inter> patch_rect (patches ! 1) = {}
      \<and> patch_rect (patches ! 1) \<inter> patch_rect (patches ! 2) = {}
      \<and> patch_rect (patches ! 2) \<inter> patch_rect (patches ! 3) = {}
      \<and> patch_rect (patches ! 3) \<subseteq> {0..599} \<times> {0..599}
      \<and> (\<exists>k < 4. (0 + 598 * 2 ^ 0, 0 + 598 * 2 ^ 0) \<in> patch_rect (patches ! k)))"
proof -
  have h: "tile_dir_ready (scenario_self ''zarr'') scenario_world ''out/pyramid.zarr''"
    by (simp add: tile_dir_ready_def chunked_def scenario_self_def)
  have t: "0 < tile_width (scenario_self ''zarr'')" "0 < tile_height (scenario_self ''zarr'')"
    by (simp_all add: scenario_self_def)
  have s: "dr_step (0, 1, 599) = 2 ^ 0" by (simp add: dr_step_def)
  have e: "dr_origin (0, 1, 599) \<le> dr_end (0, 1, 599)" by (simp add: dr_origin_def dr_end_def)
  have x: "exact_quotient (dr_end (0, 1, 599) - dr_origin (0, 1, 599)) (dr_step (0, 1, 599))"
    by (simp add: exact_quotient_def dr_origin_def dr_end_def dr_step_def)
  have tb: "tile_width (scenario_self ''zarr'') < 2 ^ 53" "tile_height (scenario_self ''zarr'') < 2 ^ 53"
    by (simp_all add: scenario_self_def)
  obtain rx ry xt yt patches patch_identifier w' where
    g: "grid_size (scenario_self ''zarr'') ((0, 1, 599), (0, 1, 599)) = Inr (rx, ry, xt, yt)"
    and rx: "rx = \<lceil>(of_int (dr_end (0, 1, 599) - dr_origin (0, 1, 599)) :: rat) / of_int (dr_step (0, 1, 599))\<rceil>"
    and ry: "ry = \<lceil>(of_int (dr_end (0, 1, 599) - dr_origin (0, 1, 599)) :: rat) / of_int (dr_step (0, 1, 599))\<rceil>"
    and xt: "xt = \<lceil>(of_int rx :: rat) / of_int (tile_width (scenario_self ''zarr''))\<rceil>"
    and yt: "yt = \<lceil>(of_int ry :: rat) / of_int (tile_height (scenario_self ''zarr''))\<rceil>"
    and r: "create_patch_list (scenario_self ''zarr'') (dr_end (0, 1, 599)) (dr_end (0, 1, 599)) (xt, yt)
          (tile_width (scenario_self ''zarr''), tile_height (scenario_self ''zarr''))
          (dr_origin (0, 1, 599), dr_origin (0, 1, 599)) 0 ''out/pyramid.zarr'' scenario_world
        = Inr (patches, patch_identifier, w')"
    and l: "int (length patches) = xt * yt" "length patch_identifier = length patches"
    and d: "distinct patch_identifier"
    and i: "\<forall>k < length patches.
          0 \<le> fst (patch_identifier ! k) \<and> fst (patch_identifier ! k) < xt
        \<and> 0 \<le> snd (patch_identifier ! k) \<and> snd (patch_identifier ! k) < yt
        \<and> k = nat (snd (patch_identifier ! k) * xt + fst (patch_identifier ! k))"
    and j: "\<forall>j k. j < k \<and> k < length patches \<longrightarrow>
          patch_rect (patches ! j) \<inter> patch_rect (patches ! k) = {}"
    and sb: "\<forall>k < length patches.
          patch_rect (patches ! k) \<subseteq> {dr_origin (0, 1, 599)..dr_end (0, 1, 599)} \<times> {dr_origin (0, 1, 599)..dr_end (0, 1, 599)}"
    and c: "\<forall>i j. 0 \<le> i \<and> i < rx \<and> 0 \<le> j \<and> j < ry \<longrightarrow>
          (\<exists>k < length patches.
             (dr_origin (0, 1, 599) + i * 2 ^ 0, dr_origin (0, 1, 599) + j * 2 ^ 0) \<in> patch_rect (patches ! k))"
    using patch_grid_partition[OF h t s s e e x x tb] by (elim exE conjE) (rule that, assumption+)
  have rx': "rx = 599" and ry': "ry = 599"
    using rx ry by (simp_all add: dr_end_def dr_origin_def dr_step_def)
  have "\<lceil>(599::rat) / 512\<rceil> = 2"
    using ceiling_divide_eq_div[of 599 512, where ?'a = rat] by simp
  then have xt': "xt = 2" and yt': "yt = 2" using xt yt by (simp_all add: rx' ry' scenario_self_def)
  have len: "length patches = 4" using l(1) by (simp add: xt' yt')
  have i1: "patch_identifier ! 1 = (1, 0)"
  proof -
    from i[rule_format, of 1] len
    have f: "0 \<le> fst (patch_identifier ! 1)" "fst (patch_identifier ! 1) < 2"
      "0 \<le> snd (patch_identifier ! 1)" "snd (patch_identifier ! 1) < 2"
      "1 = nat (snd (patch_identifier ! 1) * 2 + fst (patch_identifier ! 1))"
      by (simp_all add: xt' yt')
    have "fst (patch_identifier ! 1) = 0 \<or> fst (patch_identifier ! 1) = 1"
      "snd (patch_identifier ! 1) = 0 \<or> snd (patch_identifier ! 1) = 1"
      using f(1-4) by linarith+
    then have "fst (patch_identifier ! 1) = 1 \<and> snd (patch_identifier ! 1) = 0"
      using f(5) by auto
    then show ?thesis by (simp add: prod_eq_iff)
  qed
  have i2: "patch_identifier ! 2 = (0, 1)"
  proof -
    from i[rule_format, of 2] len
    have f: "0 \<le> fst (patch_identifier ! 2)" "fst (patch_identifier ! 2) < 2"
      "0 \<le> snd (patch_identifier ! 2)" "snd (patch_identifier ! 2) < 2"
      "2 = nat (snd (patch_identifier ! 2) * 2 + fst (patch_identifier ! 2))"
      by (simp_all add: xt' yt')
    have "fst (patch_identifier ! 2) = 0 \<or> fst (patch_identifier ! 2) = 1"
      "snd (patch_identifier ! 2) = 0 \<or> snd (patch_identifier ! 2) = 1"
      using f(1-4) by linarith+
    then have "fst (patch_identifier ! 2) = 0 \<and> snd (patch_identifier ! 2) = 1"
      using f(5) by auto
    then show ?thesis by (simp add: prod_eq_iff)
  qed
  have j01: "patch_rect (patches ! 0) \<inter> patch_rect (patches ! 1) = {}"
    and j12: "patch_rect (patches ! 1) \<inter> patch_rect (patches ! 2) = {}"
    and j23: "patch_rect (patches ! 2) \<inter> patch_rect (patches ! 3) = {}"
    using j[rule_format, of 0 1] j[rule_format, of 1 2] j[rule_format, of 2 3] len by simp_all
  have b3: "patch_rect (patches ! 3) \<subseteq> {0..599} \<times> {0..599}"
    using sb[rule_format, of 3] len by (simp add: dr_origin_def dr_end_def)
  from c[rule_format, of 598 598] len
  have c': "\<exists>k < 4. (0 + 598 * 2 ^ 0, 0 + 598 * 2 ^ 0) \<in> patch_rect (patches ! k)"
    by (simp add: rx' ry' dr_origin_def)
  have r': "create_patch_list (scenario_self ''zarr'') 599 599 (2, 2) (512, 512) (0, 0) 0
          ''out/pyramid.zarr'' scenario_world = Inr (patches, patch_identifier, w')"
    using r by (simp add: xt' yt' scenario_self_def dr_end_def dr_origin_def)
  have g': "grid_size (scenario_self ''zarr'') ((0, 1, 599), (0, 1, 599)) = Inr (599, 599, 2, 2)"
    using g by (simp add: rx' ry' xt' yt')
  have l4: "length patch_identifier = 4" using l(2) len by simp
  have "\<exists>patches patch_identifier w'.
        grid_size (scenario_self ''zarr'') ((0, 1, 599), (0, 1, 599)) = Inr (599, 599, 2, 2)
      \<and> create_patch_list (scenario_self ''zarr'') 599 599 (2, 2) (512, 512) (0, 0) 0
          ''out/pyramid.zarr'' scenario_world = Inr (patches, patch_identifier, w')
      \<and> length patches = 4 \<and> length patch_identifier = 4
      \<and> distinct patch_identifier
      \<and> patch_identifier ! 1 = (1, 0) \<and> patch_identifier ! 2 = (0, 1)
      \<and> patch_rect (patches ! 0) \<inter> patch_rect (patches ! 1) = {}
      \<and> patch_rect (patches ! 1) \<inter> patch_rect (patches ! 2) = {}
      \<and> patch_rect (patches ! 2) \<inter> patch_rect (patches ! 3) = {}
      \<and> patch_rect (patches ! 3) \<subseteq> {0..599} \<times> {0..599}
      \<and> (\<exists>k < 4. (0 + 598 * 2 ^ 0, 0 + 598 * 2 ^ 0) \<in> patch_rect (patches ! k))"
    using g' r' len l4 d i1 i2 j01 j12 j23 b3 c' by blast
  then show ?thesis using h t s e x tb by blast
qed
subsection \<open>Deinterleaving: \<open>make_planar\<close>\<close>

lemma every_third_length: "length (every_third xs) = (length xs + 2) div 3"
proof (induction xs rule: every_third.induct)
  case 1
  then show ?case by simp
next
  case (2 x xs)
  have "Suc ((length xs - 2 + 2) div 3) = (Suc (length xs) + 2) div 3" by presburger
  then show ?case using 2 by simp
qed

lemma every_third_nth: "3 * i < length xs \<Longrightarrow> every_third xs ! i = xs ! (3 * i)"
proof (induction i arbitrary: xs)
  case 0
  then show ?case by (cases xs) simp_all
next
  case (Suc i)
  then obtain x xs' where xs: "xs = x # xs'" by (cases xs) auto
  have l: "3 * i < length (drop 2 xs')" using Suc.prems xs by simp
  have "every_third xs ! Suc i = drop 2 xs' ! (3 * i)" using Suc.IH[OF l] xs by simp
  also have "\<dots> = xs' ! (2 + 3 * i)" using l by simp
  also have "\<dots> = xs ! (3 * Suc i)" using xs by simp
  finally show ?case .
qed

lemma plane_length:
  assumes "length pixels = 3 * n" "c < 3"
  shows "length (every_third (drop c pixels)) = n"
  using assms by (simp add: every_third_length)

lemma plane_nth:
  assumes "length pixels = 3 * n" "c < 3" "i < n"
  shows "every_third (drop c pixels) ! i = pixels ! (3 * i + c)"
proof -
  have "3 * i < length (drop c pixels)" using assms by simp
  from every_third_nth[OF this] show ?thesis using assms by (simp add: add.commute)
qed

lemma chop_rows_length: "length (chop_rows rows cols v) = rows"
  by (simp add: chop_rows_def)

lemma cell_in_bounds:
  fixes x y rows cols :: nat
  assumes "y < rows" "x < cols"
  shows "y * cols + x < rows * cols"
proof -
  have "y * cols + x < (y + 1) * cols" using assms(2) by simp
  also have "\<dots> \<le> rows * cols" using assms(1) by (intro mult_le_mono1) simp
  finally show ?thesis .
qed

lemma chop_rows_row:
  assumes "length v = rows * cols" "y < rows"
  shows "length (chop_rows rows cols v ! y) = cols"
    and "x < cols \<Longrightarrow> chop_rows rows cols v ! y ! x = v ! (y * cols + x)"
proof -
  have "(y + 1) * cols \<le> rows * cols" using assms(2) by (intro mult_le_mono1) simp
  then have b: "y * cols + cols \<le> length v" using assms(1) by simp
  show "length (chop_rows rows cols v ! y) = cols" using assms(2) b by (simp add: chop_rows_def)
  show "x < cols \<Longrightarrow> chop_rows rows cols v ! y ! x = v ! (y * cols + x)"
    using assms(2) b by (simp add: chop_rows_def)
qed

lemma chop_rows_concat:
  "length v = rows * cols \<Longrightarrow> concat (chop_rows rows cols v) = v"
proof (induction rows arbitrary: v)
  case 0
  then show ?case by (simp add: chop_rows_def)
next
  case (Suc rows)
  have "chop_rows (Suc rows) cols v = take cols v # chop_rows rows cols (drop cols v)"
    unfolding chop_rows_def
    by (simp add: upt_conv_Cons map_Suc_upt[symmetric] add.commute del: upt_Suc)
  moreover have "length (drop cols v) = rows * cols" using Suc.prems by simp
  ultimately show ?case using Suc.IH by simp
qed

lemma set_shape_exact:
  assumes "length v = rows * cols"
  shows "set_shape v (int rows) (int cols) = Inr (chop_rows rows cols v)"
proof -
  have "int rows * int cols = int (length v)" using assms by simp
  then show ?thesis by (simp add: set_shape_def)
qed

lemma interleave_planes:
  assumes "length pixels = 3 * n"
  shows "concat (map (\<lambda>i. [every_third (drop 0 pixels) ! i, every_third (drop 1 pixels) ! i,
                           every_third (drop 2 pixels) ! i]) [0..<n]) = pixels"
proof (rule nth_equalityI)
  have len: "length (concat (map (\<lambda>i. [every_third (drop 0 pixels) ! i, every_third (drop 1 pixels) ! i,
                           every_third (drop 2 pixels) ! i]) [0..<n])) = n * 3"
    using concat_rows_length[of "\<lambda>i. [every_third (drop 0 pixels) ! i, every_third (drop 1 pixels) ! i,
                           every_third (drop 2 pixels) ! i]" 3 "[0..<n]"] by simp
  then show "length (concat (map (\<lambda>i. [every_third (drop 0 pixels) ! i, every_third (drop 1 pixels) ! i,
                           every_third (drop 2 pixels) ! i]) [0..<n])) = length pixels"
    using assms by simp
  fix k
  assume "k < length (concat (map (\<lambda>i. [every_third (drop 0 pixels) ! i, every_third (drop 1 pixels) ! i,
                           every_third (drop 2 pixels) ! i]) [0..<n]))"
  then have k: "k < n * 3" using len by simp
  then have j: "k div 3 < length [0..<n]" by simp
  have i: "k mod 3 < 3" by simp
  have "concat (map (\<lambda>i. [every_third (drop 0 pixels) ! i, every_third (drop 1 pixels) ! i,
                           every_third (drop 2 pixels) ! i]) [0..<n]) ! (k div 3 * 3 + k mod 3)
      = [every_third (drop 0 pixels) ! ([0..<n] ! (k div 3)), every_third (drop 1 pixels) ! ([0..<n] ! (k div 3)),
                           every_third (drop 2 pixels) ! ([0..<n] ! (k div 3))] ! (k mod 3)"
    by (rule concat_rows_nth[OF _ j i]) simp
  also have "\<dots> = pixels ! (3 * (k div 3) + k mod 3)"
  proof -
    have d: "k div 3 < n" using k by simp
    consider "k mod 3 = 0" | "k mod 3 = 1" | "k mod 3 = 2" using i by linarith
    then show ?thesis
      using plane_nth[OF assms _ d, of 0] plane_nth[OF assms _ d, of 1] plane_nth[OF assms _ d, of 2] d
      by cases simp_all
  qed
  finally show "concat (map (\<lambda>i. [every_third (drop 0 pixels) ! i, every_third (drop 1 pixels) ! i,
                           every_third (drop 2 pixels) ! i]) [0..<n]) ! k = pixels ! k"
    by (simp add: mult.commute)
qed

lemma make_planar_planes:
  assumes "length pixels = 3 * width * height"
  shows "make_planar pixels (int width) (int height) =
           Inr [chop_rows height width (every_third (drop 0 pixels)),
                chop_rows height width (every_third (drop 1 pixels)),
                chop_rows height width (every_third (drop 2 pixels))]"
proof -
  have len: "length pixels = 3 * (height * width)"
    using assms by (simp add: mult.commute mult.left_commute)
  have "set_shape (every_third (drop c pixels)) (int height) (int width)
          = Inr (chop_rows height width (every_third (drop c pixels)))" if "c < 3" for c
    by (rule set_shape_exact) (rule plane_length[OF len that])
  from this[of 0] this[of 1] this[of 2] show ?thesis by (simp add: make_planar_def)
qed

text \<open>
  Claim C6. For an interleaved RGB buffer of length \<open>3 * width * height\<close>,
  \<open>make_planar\<close> returns three planes of \<open>height\<close> rows of \<open>width\<close> bytes with
  \<open>planes[c][y][x] = pixels[3 * (y * width + x) + c]\<close>, and interleaving the planes
  again gives the buffer back.
\<close>

theorem make_planar_deinterleaves:
  assumes "length pixels = 3 * width * height"
  shows "\<exists>planes. make_planar pixels (int width) (int height) = Inr planes
     \<and> length planes = 3
     \<and> (\<forall>c < 3. length (planes ! c) = height
           \<and> (\<forall>y < height. length (planes ! c ! y) = width
                 \<and> (\<forall>x < width. planes ! c ! y ! x = pixels ! (3 * (y * width + x) + c))))
     \<and> interleave planes = pixels"
proof -
  define n where "n = height * width"
  define plane where "plane = (\<lambda>c. every_third (drop c pixels))"
  define planes where "planes = [chop_rows height width (plane 0), chop_rows height width (plane 1),
                                 chop_rows height width (plane 2)]"
  have len: "length pixels = 3 * n" using assms by (simp add: n_def mult.commute mult.left_commute)
  have pl: "length (plane c) = height * width" if "c < 3" for c
    unfolding plane_def using plane_length[OF len that] by (simp add: n_def)
  have sh: "set_shape (plane c) (int height) (int width) = Inr (chop_rows height width (plane c))"
    if "c < 3" for c
    by (rule set_shape_exact[OF pl[OF that]])
  have mp: "make_planar pixels (int width) (int height) = Inr planes"
    using sh[of 0] sh[of 1] sh[of 2]
    by (simp add: make_planar_def planes_def plane_def)
  have nth_c: "planes ! c = chop_rows height width (plane c)" if c: "c < 3" for c
  proof -
    consider "c = 0" | "c = 1" | "c = 2" using c by linarith
    then show ?thesis by cases (simp_all add: planes_def)
  qed
  have cells: "length (planes ! c) = height
           \<and> (\<forall>y < height. length (planes ! c ! y) = width
                 \<and> (\<forall>x < width. planes ! c ! y ! x = pixels ! (3 * (y * width + x) + c)))"
    if c: "c < 3" for c
  proof (intro conjI allI impI)
    show "length (planes ! c) = height" by (simp add: nth_c[OF c] chop_rows_length)
  next
    fix y assume y: "y < height"
    show "length (planes ! c ! y) = width"
      unfolding nth_c[OF c] by (rule chop_rows_row(1)[OF pl[OF c] y])
  next
    fix y x assume y: "y < height" and x: "x < width"
    have i: "y * width + x < n" unfolding n_def by (rule cell_in_bounds[OF y x])
    have "planes ! c ! y ! x = plane c ! (y * width + x)"
      unfolding nth_c[OF c] by (rule chop_rows_row(2)[OF pl[OF c] y x])
    also have "\<dots> = pixels ! (3 * (y * width + x) + c)"
      unfolding plane_def by (rule plane_nth[OF len c i])
    finally show "planes ! c ! y ! x = pixels ! (3 * (y * width + x) + c)" .
  qed
  have cc: "concat (planes ! c) = plane c" if "c < 3" for c
    unfolding nth_c[OF that] by (rule chop_rows_concat[OF pl[OF that]])
  have "interleave planes = concat (map (\<lambda>i. [plane 0 ! i, plane 1 ! i, plane 2 ! i]) [0..<length (plane 0)])"
    unfolding interleave_def Let_def using cc[of 0] cc[of 1] cc[of 2] by simp
  also have "length (plane 0) = n" using pl[of 0] by (simp add: n_def)
  also have "concat (map (\<lambda>i. [plane 0 ! i, plane 1 ! i, plane 2 ! i]) [0..<n]) = pixels"
    unfolding plane_def by (rule interleave_planes[OF len])
  finally have il: "interleave planes = pixels" .
  have "length planes = 3" by (simp add: planes_def)
  then show ?thesis using mp cells il by blast
qed

theorem make_planar_deinterleaves_witness:
  "length [1, 2, 3, 4, 5, 6, 7, 8, 9, 10, 11, 12 :: 8 word] = 3 * 2 * 2
   \<and> make_planar [1, 2, 3, 4, 5, 6, 7, 8, 9, 10, 11, 12] 2 2
       = Inr [[[1, 4], [7, 10]], [[2, 5], [8, 11]], [[3, 6], [9, 12]]]
   \<and> interleave [[[1, 4], [7, 10]], [[2, 5], [8, 11]], [[3, 6], [9, 12 :: 8 word]]]
       = [1, 2, 3, 4, 5, 6, 7, 8, 9, 10, 11, 12]"
proof -
  have h: "length [1, 2, 3, 4, 5, 6, 7, 8, 9, 10, 11, 12 :: 8 word] = 3 * 2 * 2" by simp
  have e: "make_planar [1, 2, 3, 4, 5, 6, 7, 8, 9, 10, 11, 12] 2 2
       = Inr [[[1, 4], [7, 10]], [[2, 5], [8, 11]], [[3, 6], [9, 12]]]"
    by (simp add: make_planar_def set_shape_def chop_rows_def upt_rec)
  from make_planar_deinterleaves[OF h] e
  have "interleave [[[1, 4], [7, 10]], [[2, 5], [8, 11]], [[3, 6], [9, 12 :: 8 word]]]
       = [1, 2, 3, 4, 5, 6, 7, 8, 9, 10, 11, 12]" by simp
  then show ?thesis using h e by simp
qed
subsection \<open>The constructor\<close>

lemma os_mkdir_cases:
  "(\<exists>e. os_mkdir p w = Inl (e, w) \<and> is_OSError e)
   \<or> (os_mkdir p w = Inr (w\<lparr>fs_dirs := insert (norm_path p) (fs_dirs w)\<rparr>)
       \<and> \<not> path_exists w p \<and> p \<noteq> [] \<and> is_dir w (parent_dir (norm_path p)))"
  by (simp add: os_mkdir_def)

lemma os_mkdir_fails:
  "p = [] \<or> path_exists w p \<or> \<not> is_dir w (parent_dir (norm_path p))
     \<Longrightarrow> \<exists>e. os_mkdir p w = Inl (e, w) \<and> is_OSError e"
  by (auto simp: os_mkdir_def)

text \<open>
  Claim C10. \<open>WriteTiles.__init__\<close> calls \<open>os.mkdir\<close> on the output path before it
  opens the engine's input. When the output path exists already, or its parent
  directory is missing, the constructor raises an \<open>OSError\<close> in the unchanged world:
  the engine's input was never opened. Whenever the constructor raises after the
  engine was asked to open the input, the directory had been created first. When
  the constructor returns, the output path did not exist before and is a directory
  now, and the engine's input was opened exactly once.
\<close>

theorem init_mkdir_before_open:
  "(output_path = [] \<or> path_exists w output_path \<or> \<not> is_dir w (parent_dir (norm_path output_path))
      \<longrightarrow> (\<exists>e. init_write_tiles eng tw th res ft mw inp output_path w = Inl (e, w) \<and> is_OSError e))
   \<and> (\<forall>e w'. init_write_tiles eng tw th res ft mw inp output_path w = Inl (e, w')
         \<longrightarrow> (engine_opens w' = engine_opens w \<and> w' = w \<and> is_OSError e)
           \<or> (engine_opens w' = engine_opens w @ [inp] \<and> open_fails eng inp = Some e
              \<and> \<not> path_exists w output_path \<and> norm_path output_path \<in> fs_dirs w'))
   \<and> (\<forall>self w'. init_write_tiles eng tw th res ft mw inp output_path w = Inr (self, w')
         \<longrightarrow> \<not> path_exists w output_path \<and> norm_path output_path \<in> fs_dirs w'
           \<and> is_dir w' output_path
           \<and> engine_opens w' = engine_opens w @ [inp]
           \<and> slide_directory self = output_path \<and> input_path self = inp)"
proof -
  have 1: "\<exists>e. init_write_tiles eng tw th res ft mw inp output_path w = Inl (e, w) \<and> is_OSError e"
    if "output_path = [] \<or> path_exists w output_path \<or> \<not> is_dir w (parent_dir (norm_path output_path))"
    using os_mkdir_fails[OF that] by (auto simp: init_write_tiles_def)
  have 2: "(engine_opens w' = engine_opens w \<and> w' = w \<and> is_OSError e)
           \<or> (engine_opens w' = engine_opens w @ [inp] \<and> open_fails eng inp = Some e
              \<and> \<not> path_exists w output_path \<and> norm_path output_path \<in> fs_dirs w')"
    if a: "init_write_tiles eng tw th res ft mw inp output_path w = Inl (e, w')" for e w'
    using os_mkdir_cases[of output_path w] a
    by (auto simp: init_write_tiles_def Let_def split: option.splits)
  have 3: "\<not> path_exists w output_path \<and> norm_path output_path \<in> fs_dirs w'
           \<and> is_dir w' output_path
           \<and> engine_opens w' = engine_opens w @ [inp]
           \<and> slide_directory self = output_path \<and> input_path self = inp"
    if a: "init_write_tiles eng tw th res ft mw inp output_path w = Inr (self, w')" for self w'
    using os_mkdir_cases[of output_path w] a
    by (auto simp: init_write_tiles_def Let_def is_dir_def split: option.splits)
  show ?thesis using 1 2 3 by blast
qed

theorem init_mkdir_before_open_witness:
  "path_exists scenario_world ''out''
   \<and> init_write_tiles scenario_engine 512 512 None ''zarr'' 4 ''in.isyntax'' ''out'' scenario_world
       = Inl (FileExistsError, scenario_world)
   \<and> init_write_tiles scenario_engine 512 512 None ''zarr'' 4 ''in.isyntax'' ''missing/out'' empty_world
       = Inl (FileNotFoundError, empty_world)
   \<and> init_write_tiles scenario_engine 512 512 None ''zarr'' 4 ''in.isyntax'' ''out'' empty_world
       = Inr (scenario_self ''zarr'', scenario_world)
   \<and> engine_opens scenario_world = engine_opens empty_world @ [''in.isyntax'']"
proof -
  have p: "path_exists scenario_world ''out''"
    by (simp add: path_exists_def is_dir_def norm_path_def all_slashes_def strip_slashes_def
        scenario_world_def empty_world_def)
  have a: "init_write_tiles scenario_engine 512 512 None ''zarr'' 4 ''in.isyntax'' ''out'' scenario_world
       = Inl (FileExistsError, scenario_world)"
    using p by (simp add: init_write_tiles_def os_mkdir_def)
  have b: "init_write_tiles scenario_engine 512 512 None ''zarr'' 4 ''in.isyntax'' ''missing/out'' empty_world
       = Inl (FileNotFoundError, empty_world)"
    by (simp add: init_write_tiles_def os_mkdir_def path_exists_def is_dir_def norm_path_def
        all_slashes_def strip_slashes_def parent_dir_def empty_world_def)
  have c: "init_write_tiles scenario_engine 512 512 None ''zarr'' 4 ''in.isyntax'' ''out'' empty_world
       = Inr (scenario_self ''zarr'', scenario_world)"
    by (simp add: init_write_tiles_def os_mkdir_def path_exists_def is_dir_def norm_path_def
        all_slashes_def strip_slashes_def parent_dir_def empty_world_def scenario_world_def
        scenario_self_def scenario_engine_def)
  from init_mkdir_before_open[of "''out''" scenario_world scenario_engine 512 512 None "''zarr''" 4 "''in.isyntax''"]
  have "\<exists>e. init_write_tiles scenario_engine 512 512 None ''zarr'' 4 ''in.isyntax'' ''out'' scenario_world
       = Inl (e, scenario_world) \<and> is_OSError e" using p by blast
  then show ?thesis using p a b c by (simp add: scenario_world_def empty_world_def)
qed
subsection \<open>The exceptions of \<open>write_pyramid\<close>\<close>

lemma for_each_error:
  assumes "for_each body xs s = Inl e" "\<And>x s e. body x s = Inl e \<Longrightarrow> P e"
  shows "P e"
  using assms(1)
proof (induction xs arbitrary: s)
  case Nil
  then show ?case by simp
next
  case (Cons x xs)
  then show ?case using assms(2) by (auto split: sum.splits)
qed

lemma for_each_opt_error:
  assumes "for_each_opt body xs s = Some (Inl e)" "\<And>x s e. body x s = Some (Inl e) \<Longrightarrow> P e"
  shows "P e"
  using assms(1)
proof (induction xs arbitrary: s)
  case Nil
  then show ?case by simp
next
  case (Cons x xs)
  then show ?case using assms(2) by (auto split: sum.splits option.splits)
qed

lemma os_mkdir_error: "os_mkdir p w = Inl (e, w') \<Longrightarrow> is_OSError e"
  by (auto simp: os_mkdir_def split: if_splits)

lemma is_OSError_not_runtime: "is_OSError e \<Longrightarrow> e \<noteq> RuntimeError m"
  by (cases e) simp_all

lemma create_tile_directory_error:
  "create_tile_directory self resolution width height w = Inl (e, w') \<Longrightarrow> e \<noteq> RuntimeError m"
  by (auto simp: create_tile_directory_def zarr_create_dataset_def Let_def
      split: if_splits sum.splits dest: os_mkdir_error)

lemma create_x_directory_error:
  "create_x_directory self td x w = Inl (e, w') \<Longrightarrow> e \<noteq> RuntimeError m"
  by (auto simp: create_x_directory_def Let_def split: if_splits dest: os_mkdir_error)

lemma create_patch_list_error:
  assumes "create_patch_list self ixe iye tiles tile_size origin level td w = Inl (e, w')"
  shows "e \<noteq> RuntimeError m"
proof -
  have "fst (e, w') \<noteq> RuntimeError m"
    apply (rule for_each_error[OF assms[unfolded create_patch_list_def Let_def], where P = "\<lambda>ew. fst ew \<noteq> RuntimeError m"])
    apply (erule for_each_error)
    apply (auto split: sum.splits prod.splits dest: create_x_directory_error)
    done
  then show ?thesis by simp
qed

lemma grid_size_error: "grid_size self drs = Inl e \<Longrightarrow> e = ZeroDivisionError"
  by (auto simp: grid_size_def get_size_def py_truediv_def Let_def split: sum.splits if_splits)

lemma plan_level_error:
  "plan_level self eng resolution w = Inl (e, w') \<Longrightarrow> e \<noteq> RuntimeError m"
  by (auto simp: plan_level_def Let_def split: sum.splits prod.splits
      dest: grid_size_error create_tile_directory_error create_patch_list_error)

lemma dispatch_region_error:
  "dispatch_region self eng flt drs resolution td region st = Some (Inl (e, w')) \<Longrightarrow> e \<noteq> RuntimeError m"
  by (auto simp: dispatch_region_def py_truediv_def Let_def
      split: prod.splits sum.splits option.splits if_splits)

lemma dispatch_loop_error:
  "dispatch_loop self eng flt drs resolution td fuel calls st = Some (Inl (e, w')) \<Longrightarrow> e \<noteq> RuntimeError m"
proof (induction fuel arbitrary: calls st)
  case 0
  then show ?case by (simp split: if_splits)
next
  case (Suc fuel)
  show ?case
  proof (cases "fst st = []")
    case True
    then show ?thesis using Suc.prems by simp
  next
    case False
    show ?thesis
    proof (cases "for_each_opt (dispatch_region self eng flt drs resolution td) (waitAny eng resolution calls (fst st)) st")
      case None
      then show ?thesis using Suc.prems False by simp
    next
      case (Some r)
      show ?thesis
      proof (cases r)
        case (Inl ew)
        then have "ew = (e, w')" using Suc.prems False Some by simp
        then have "fst (e, w') \<noteq> RuntimeError m"
          using for_each_opt_error[OF Some[unfolded Inl], where P = "\<lambda>ew. fst ew \<noteq> RuntimeError m"]
            dispatch_region_error by fastforce
        then show ?thesis by simp
      next
        case (Inr st')
        then show ?thesis using Suc.prems False Some Suc.IH by simp
      qed
    qed
  qed
qed

lemma write_level_error:
  "write_level self eng flt fuel resolution w = Some (Inl (e, w')) \<Longrightarrow> e \<noteq> RuntimeError m"
  by (auto simp: write_level_def Let_def split: sum.splits prod.splits option.splits if_splits
      dest: plan_level_error dispatch_loop_error)

text \<open>
  Claim C9. When the WSI image's valid data envelopes are \<open>None\<close>, \<open>write_pyramid\<close>
  raises \<open>RuntimeError("No valid data envelopes")\<close> in the unchanged world: no tile
  directory or dataset was created, no region requested and no tile written, whatever
  the engine and the libraries would have done. When the envelopes are not \<open>None\<close>,
  \<open>write_pyramid\<close> raises no \<open>RuntimeError\<close> at all.
\<close>

theorem no_envelopes_is_fatal:
  assumes "find_image_type eng ''WSI'' = Some image_container"
  shows "(IMAGE_VALID_DATA_ENVELOPES image_container = None \<longrightarrow>
            write_pyramid self eng flt fuel w
              = Some (Inl (RuntimeError ''No valid data envelopes'', w)))
       \<and> (IMAGE_VALID_DATA_ENVELOPES image_container \<noteq> None \<longrightarrow>
            (\<forall>m w'. write_pyramid self eng flt fuel w \<noteq> Some (Inl (RuntimeError m, w'))))"
proof -
  have a: "write_pyramid self eng flt fuel w = Some (Inl (RuntimeError ''No valid data envelopes'', w))"
    if "IMAGE_VALID_DATA_ENVELOPES image_container = None"
    using assms that by (simp add: write_pyramid_def)
  have b: "write_pyramid self eng flt fuel w \<noteq> Some (Inl (RuntimeError m, w'))"
    if n: "IMAGE_VALID_DATA_ENVELOPES image_container \<noteq> None" for m w'
  proof
    assume r: "write_pyramid self eng flt fuel w = Some (Inl (RuntimeError m, w'))"
    from n obtain s where s: "IMAGE_VALID_DATA_ENVELOPES image_container = Some s" by auto
    define levels where "levels = (case resolutions self of None \<Rightarrow> level_range (numLevels eng)
                                   | Some n \<Rightarrow> level_range n)"
    have "for_each_opt (write_level self eng flt fuel) levels w = Some (Inl (RuntimeError m, w'))"
      using r assms s by (simp add: write_pyramid_def levels_def)
    from for_each_opt_error[OF this, where P = "\<lambda>ew. fst ew \<noteq> RuntimeError m"]
    show False using write_level_error by fastforce
  qed
  show ?thesis using a b by blast
qed

theorem no_envelopes_is_fatal_witness:
  "find_image_type (scenario_engine\<lparr>images := [\<lparr>IMAGE_TYPE = ''WSI'', IMAGE_VALID_DATA_ENVELOPES = None\<rparr>]\<rparr>) ''WSI''
     = Some \<lparr>IMAGE_TYPE = ''WSI'', IMAGE_VALID_DATA_ENVELOPES = None\<rparr>
   \<and> write_pyramid (scenario_self ''zarr'')
        (scenario_engine\<lparr>images := [\<lparr>IMAGE_TYPE = ''WSI'', IMAGE_VALID_DATA_ENVELOPES = None\<rparr>]\<rparr>)
        no_faults 7 scenario_world
      = Some (Inl (RuntimeError ''No valid data envelopes'', scenario_world))
   \<and> find_image_type scenario_engine ''WSI'' = Some \<lparr>IMAGE_TYPE = ''WSI'', IMAGE_VALID_DATA_ENVELOPES = Some ()\<rparr>
   \<and> write_pyramid (scenario_self ''zarr'') scenario_engine no_faults 7 scenario_world
      \<noteq> Some (Inl (RuntimeError ''No valid data envelopes'', scenario_world))"
proof -
  have h: "find_image_type (scenario_engine\<lparr>images := [\<lparr>IMAGE_TYPE = ''WSI'', IMAGE_VALID_DATA_ENVELOPES = None\<rparr>]\<rparr>) ''WSI''
     = Some \<lparr>IMAGE_TYPE = ''WSI'', IMAGE_VALID_DATA_ENVELOPES = None\<rparr>"
    by (simp add: find_image_type_def)
  have k: "find_image_type scenario_engine ''WSI'' = Some \<lparr>IMAGE_TYPE = ''WSI'', IMAGE_VALID_DATA_ENVELOPES = Some ()\<rparr>"
    by (simp add: find_image_type_def scenario_engine_def)
  from no_envelopes_is_fatal[OF h, of "scenario_self ''zarr''" no_faults 7 scenario_world]
    no_envelopes_is_fatal[OF k, of "scenario_self ''zarr''" no_faults 7 scenario_world]
  show ?thesis using h k by simp
qed
subsection \<open>Failures of single tiles\<close>

lemma for_each_commute:
  assumes "\<And>x s. body x (G s) = map_sum E G (body x s)"
  shows "for_each body xs (G s) = map_sum E G (for_each body xs s)"
proof (induction xs arbitrary: s)
  case Nil
  then show ?case by simp
next
  case (Cons x xs)
  then show ?case using assms by (cases "body x s") simp_all
qed

lemma retile_reads [simp]:
  "fs_dirs (retile ts ds w) = fs_dirs w" "fs_files (retile ts ds w) = fs_files w"
  "fs_datasets (retile ts ds w) = fs_datasets w" "fs_tiles (retile ts ds w) = ts"
  "diagnostics (retile ts ds w) = ds" "engine_opens (retile ts ds w) = engine_opens w"
  "engine_requests (retile ts ds w) = engine_requests w"
  by (simp_all add: retile_def)

lemma retile_updates [simp]:
  "(retile ts ds w)\<lparr>fs_dirs := d\<rparr> = retile ts ds (w\<lparr>fs_dirs := d\<rparr>)"
  "(retile ts ds w)\<lparr>fs_datasets := x\<rparr> = retile ts ds (w\<lparr>fs_datasets := x\<rparr>)"
  "(retile ts ds w)\<lparr>engine_requests := y\<rparr> = retile ts ds (w\<lparr>engine_requests := y\<rparr>)"
  by (simp_all add: retile_def)

lemma retile_is_dir [simp]: "is_dir (retile ts ds w) p = is_dir w p"
  by (simp add: is_dir_def)

lemma retile_path_exists [simp]: "path_exists (retile ts ds w) p = path_exists w p"
  by (simp add: path_exists_def)

lemma os_mkdir_retile:
  "os_mkdir p (retile ts ds w) = map_sum (apsnd (retile ts ds)) (retile ts ds) (os_mkdir p w)"
  by (simp add: os_mkdir_def)



lemma create_x_directory_retile:
  "create_x_directory self td x (retile ts ds w)
     = map_sum (apsnd (retile ts ds)) (retile ts ds) (create_x_directory self td x w)"
  by (simp add: create_x_directory_def Let_def os_mkdir_retile)

lemma create_patch_list_retile:
  "create_patch_list self ixe iye tiles tile_size origin level td (retile ts ds w)
     = map_sum (apsnd (retile ts ds)) (\<lambda>(ps, ids, w). (ps, ids, retile ts ds w))
         (create_patch_list self ixe iye tiles tile_size origin level td w)"
proof -
  have inner: "for_each (\<lambda>x (patches, patch_identifier, w).
                   case create_x_directory self td (g x) w of
                     Inl ew \<Rightarrow> Inl ew
                   | Inr w' \<Rightarrow> Inr (patches @ [f x], patch_identifier @ [h x], w')) xs
                 ((\<lambda>(ps, ids, w). (ps, ids, retile ts ds w)) s)
        = map_sum (apsnd (retile ts ds)) (\<lambda>(ps, ids, w). (ps, ids, retile ts ds w))
            (for_each (\<lambda>x (patches, patch_identifier, w).
                   case create_x_directory self td (g x) w of
                     Inl ew \<Rightarrow> Inl ew
                   | Inr w' \<Rightarrow> Inr (patches @ [f x], patch_identifier @ [h x], w')) xs s)"
    for f g h xs s
    by (rule for_each_commute) (auto simp: create_x_directory_retile split: sum.splits)
  have "for_each body ys ((\<lambda>(ps, ids, w). (ps, ids, retile ts ds w)) s)
        = map_sum (apsnd (retile ts ds)) (\<lambda>(ps, ids, w). (ps, ids, retile ts ds w)) (for_each body ys s)"
    if "body = (\<lambda>y. for_each (\<lambda>x (patches, patch_identifier, w).
                   case create_x_directory self td (g x) w of
                     Inl ew \<Rightarrow> Inl ew
                   | Inr w' \<Rightarrow> Inr (patches @ [f y x], patch_identifier @ [(x, y)], w')) xs)" for body f g xs ys s
    unfolding that by (rule for_each_commute) (rule inner)
  from this[OF refl, of _ _ _ _ "([], [], w)"] show ?thesis
    unfolding create_patch_list_def Let_def by simp
qed







lemma write_tile_returns:
  "\<exists>w'. write_tile self flt pixels resolution x_start y_start tw th filename w = Inr w'"
  by (simp add: write_tile_def Let_def split: sum.splits prod.splits)





lemma retile_self: "retile (fs_tiles w) (diagnostics w) w = w"
  by (simp add: retile_def)




subsection \<open>What a level does to the world\<close>

lemma for_each_opt_invariant:
  assumes "for_each_opt body xs s = Some (Inr s')" "P s"
    and "\<And>x s s'. P s \<Longrightarrow> body x s = Some (Inr s') \<Longrightarrow> P s'"
  shows "P s'"
  using assms(1,2)
proof (induction xs arbitrary: s)
  case Nil
  then show ?case by simp
next
  case (Cons x xs)
  then show ?case using assms(3)
    by (cases "body x s") (auto split: sum.splits)
qed

lemma write_tile_effect:
  assumes "write_tile self flt pixels resolution x_start y_start tw th filename w = Inr w'"
  shows "fs_dirs w' = fs_dirs w \<and> fs_files w' = fs_files w \<and> fs_datasets w' = fs_datasets w
       \<and> engine_opens w' = engine_opens w \<and> engine_requests w' = engine_requests w
       \<and> (fs_tiles w' = fs_tiles w
          \<or> (\<exists>payload. fs_tiles w' = fs_tiles w @
                [\<lparr>tw_target = filename, tw_level = resolution, tw_x_start = x_start,
                  tw_y_start = y_start, tw_width = tw, tw_height = th, tw_payload = payload\<rparr>]))"
proof (cases "tile_body self flt pixels resolution x_start y_start tw th filename w")
  case (Inl ew)
  then have "snd ew = w"
    by (auto simp: tile_body_def Let_def split: if_splits sum.splits option.splits prod.splits)
  then show ?thesis using assms Inl by (cases ew) (auto simp: write_tile_def Let_def)
next
  case (Inr w1)
  then have "\<exists>payload. w1 = w\<lparr>fs_tiles := fs_tiles w @
                [\<lparr>tw_target = filename, tw_level = resolution, tw_x_start = x_start,
                  tw_y_start = y_start, tw_width = tw, tw_height = th, tw_payload = payload\<rparr>]\<rparr>"
    by (auto simp: tile_body_def Let_def split: if_splits sum.splits option.splits prod.splits)
  then show ?thesis using assms Inr by (auto simp: write_tile_def Let_def)
qed

lemma dispatch_region_effect:
  assumes "dispatch_region self eng flt drs level td region (rg, ids, jobs, w) = Some (Inr (rg', ids', jobs', w'))"
  shows "\<exists>i < length ids. ids' = remove1 (ids ! i) ids
       \<and> fs_dirs w' = fs_dirs w \<and> fs_files w' = fs_files w \<and> fs_datasets w' = fs_datasets w
       \<and> engine_opens w' = engine_opens w \<and> engine_requests w' = engine_requests w
       \<and> (fs_tiles w' = fs_tiles w
          \<or> (\<exists>t. fs_tiles w' = fs_tiles w @ [t] \<and> tw_level t = level
                \<and> tw_x_start t = fst (ids ! i) * tile_width self
                \<and> tw_y_start t = snd (ids ! i) * tile_height self
                \<and> tw_target t = get_tile_filename self td (fst (ids ! i) * tile_width self)
                                   (snd (ids ! i) * tile_height self)))"
proof -
  obtain xs xe ys ye lv where rr: "region_range region = (xs, xe, ys, ye, lv)"
    by (cases "region_range region") auto
  from assms obtain qx qy i where
    qx: "py_truediv (xe - xs) (dr_step (fst drs)) = Inr qx"
    and qy: "py_truediv (ye - ys) (dr_step (snd drs)) = Inr qy"
    and i: "index_of (same_region region) rg = Some i" "i < length ids"
    and ids': "ids' = remove1 (ids ! i) ids"
    and sub: "pool_submit (max_workers self)
           (write_tile self flt (region_pixels eng region (nat (py_int (1 + qx) * py_int (1 + qy) * 3))) level
              (fst (ids ! i) * tile_width self) (snd (ids ! i) * tile_height self)
              (py_int (1 + qx)) (py_int (1 + qy))
              (get_tile_filename self td (fst (ids ! i) * tile_width self) (snd (ids ! i) * tile_height self))) w
         \<noteq> None"
    and w': "\<exists>future. pool_submit (max_workers self)
           (write_tile self flt (region_pixels eng region (nat (py_int (1 + qx) * py_int (1 + qy) * 3))) level
              (fst (ids ! i) * tile_width self) (snd (ids ! i) * tile_height self)
              (py_int (1 + qx)) (py_int (1 + qy))
              (get_tile_filename self td (fst (ids ! i) * tile_width self) (snd (ids ! i) * tile_height self))) w
         = Some (future, w')"
    by (auto simp: dispatch_region_def rr Let_def split: sum.splits option.splits if_splits prod.splits)
  from write_tile_returns[of self flt "region_pixels eng region (nat (py_int (1 + qx) * py_int (1 + qy) * 3))" level
              "fst (ids ! i) * tile_width self" "snd (ids ! i) * tile_height self"
              "py_int (1 + qx)" "py_int (1 + qy)"
              "get_tile_filename self td (fst (ids ! i) * tile_width self) (snd (ids ! i) * tile_height self)" w]
  obtain w1 where w1: "write_tile self flt (region_pixels eng region (nat (py_int (1 + qx) * py_int (1 + qy) * 3))) level
              (fst (ids ! i) * tile_width self) (snd (ids ! i) * tile_height self)
              (py_int (1 + qx)) (py_int (1 + qy))
              (get_tile_filename self td (fst (ids ! i) * tile_width self) (snd (ids ! i) * tile_height self)) w = Inr w1"
    by blast
  have "w' = w1" using w' w1 by (auto simp: pool_submit_def split: if_splits)
  from write_tile_effect[OF w1[folded this]] i(2) ids' show ?thesis by auto
qed

lemma dispatch_loop_invariant:
  assumes "dispatch_loop self eng flt drs level td fuel calls st = Some (Inr st')" "P st"
    and "\<And>region st st'. P st \<Longrightarrow> dispatch_region self eng flt drs level td region st = Some (Inr st') \<Longrightarrow> P st'"
  shows "P st' \<and> fst st' = []"
  using assms(1,2)
proof (induction fuel arbitrary: calls st)
  case 0
  then show ?case by (simp split: if_splits)
next
  case (Suc fuel)
  show ?case
  proof (cases "fst st = []")
    case True
    then show ?thesis using Suc.prems by simp
  next
    case False
    then obtain st1 where
      f: "for_each_opt (dispatch_region self eng flt drs level td) (waitAny eng level calls (fst st)) st = Some (Inr st1)"
      and l: "dispatch_loop self eng flt drs level td fuel (Suc calls) st1 = Some (Inr st')"
      using Suc.prems(1) by (auto split: option.splits sum.splits)
    have "P st1" by (rule for_each_opt_invariant[where P = P, OF f Suc.prems(2)]) (rule assms(3))
    from Suc.IH[OF l this] show ?thesis .
  qed
qed

lemma create_tile_directory_ready:
  assumes "create_tile_directory self resolution width height w = Inr (td, w1)"
  shows "tile_dir_ready self w1 td"
    and "td = (if chunked self then path_join (slide_directory self) (''pyramid.'' @ file_type self)
               else path_join (slide_directory self) (str_nat resolution))"
    and "fs_tiles w1 = fs_tiles w"
proof -
  show "td = (if chunked self then path_join (slide_directory self) (''pyramid.'' @ file_type self)
               else path_join (slide_directory self) (str_nat resolution))"
    using assms by (auto simp: create_tile_directory_def Let_def split: if_splits sum.splits)
  show "fs_tiles w1 = fs_tiles w"
    using assms by (auto simp: create_tile_directory_def Let_def os_mkdir_def zarr_create_dataset_def
        split: if_splits sum.splits)
  show "tile_dir_ready self w1 td"
  proof (cases "chunked self")
    case True
    then show ?thesis by (simp add: tile_dir_ready_def)
  next
    case False
    then have m: "os_mkdir td w = Inr w1"
      using assms by (auto simp: create_tile_directory_def Let_def split: sum.splits)
    from os_mkdir_cases[of td w] m
    have "w1 = w\<lparr>fs_dirs := insert (norm_path td) (fs_dirs w)\<rparr>" "\<not> path_exists w td" "td \<noteq> []"
      by auto
    then show ?thesis by (auto simp: tile_dir_ready_def is_dir_def path_exists_def)
  qed
qed

lemma plan_level_result:
  assumes "plan_level self eng level w = Inr ((td, ps, ids), w2)"
  shows "\<exists>rx ry xt yt. grid_size self (dimensionRanges eng level) = Inr (rx, ry, xt, yt)
       \<and> ids = concat (map (\<lambda>y. map (\<lambda>x. (x, y)) (py_range xt)) (py_range yt))
       \<and> td = (if chunked self then path_join (slide_directory self) (''pyramid.'' @ file_type self)
               else path_join (slide_directory self) (str_nat level))
       \<and> fs_tiles w2 = fs_tiles w"
proof -
  from assms obtain rx ry xt yt w1 where
    g: "grid_size self (dimensionRanges eng level) = Inr (rx, ry, xt, yt)"
    and c: "create_tile_directory self level (rx + 1) (ry + 1) w = Inr (td, w1)"
    and p: "create_patch_list self (dr_end (fst (dimensionRanges eng level))) (dr_end (snd (dimensionRanges eng level)))
             (xt, yt) (tile_width self, tile_height self)
             (dr_origin (fst (dimensionRanges eng level)), dr_origin (snd (dimensionRanges eng level))) level td w1
           = Inr (ps, ids, w2)"
    by (auto simp: plan_level_def Let_def split: sum.splits prod.splits)
  note r = create_tile_directory_ready[OF c]
  from create_patch_list_grid[OF r(1), of "dr_end (fst (dimensionRanges eng level))"
      "dr_end (snd (dimensionRanges eng level))" "(xt, yt)" "(tile_width self, tile_height self)"
      "(dr_origin (fst (dimensionRanges eng level)), dr_origin (snd (dimensionRanges eng level)))" level] p
  have ids: "ids = concat (map (\<lambda>y. map (\<lambda>x. (x, y)) (py_range xt)) (py_range yt))" by auto
  have "w2 = retile (fs_tiles w1) (diagnostics w1) w2"
    using create_patch_list_retile[of self "dr_end (fst (dimensionRanges eng level))"
      "dr_end (snd (dimensionRanges eng level))" "(xt, yt)" "(tile_width self, tile_height self)"
      "(dr_origin (fst (dimensionRanges eng level)), dr_origin (snd (dimensionRanges eng level)))"
      level td "fs_tiles w1" "diagnostics w1" w1]
    unfolding retile_self p by simp
  from arg_cong[OF this, of fs_tiles] have "fs_tiles w2 = fs_tiles w1" by simp
  then show ?thesis using g ids r(2,3) by simp
qed


lemma dispatch_loop_tiles:
  assumes run: "dispatch_loop self eng flt drs level td fuel calls (rg, ids0, jobs, w) = Some (Inr st')"
  shows "\<exists>new. fs_tiles (snd (snd (snd st'))) = fs_tiles w @ new
       \<and> fs_datasets (snd (snd (snd st'))) = fs_datasets w
       \<and> fs_dirs (snd (snd (snd st'))) = fs_dirs w
       \<and> engine_requests (snd (snd (snd st'))) = engine_requests w
       \<and> (\<forall>t \<in> set new. \<exists>gx gy. (gx, gy) \<in> set ids0 \<and> tw_level t = level
             \<and> tw_x_start t = gx * tile_width self \<and> tw_y_start t = gy * tile_height self
             \<and> tw_target t = get_tile_filename self td (gx * tile_width self) (gy * tile_height self))"
proof -
  define Q where "Q = (\<lambda>t :: tile_write. \<exists>gx gy. (gx, gy) \<in> set ids0 \<and> tw_level t = level
             \<and> tw_x_start t = gx * tile_width self \<and> tw_y_start t = gy * tile_height self
             \<and> tw_target t = get_tile_filename self td (gx * tile_width self) (gy * tile_height self))"
  define P where "P = (\<lambda>st :: dispatch_state. set (fst (snd st)) \<subseteq> set ids0
       \<and> fs_datasets (snd (snd (snd st))) = fs_datasets w
       \<and> fs_dirs (snd (snd (snd st))) = fs_dirs w
       \<and> engine_requests (snd (snd (snd st))) = engine_requests w
       \<and> (\<exists>new. fs_tiles (snd (snd (snd st))) = fs_tiles w @ new \<and> (\<forall>t \<in> set new. Q t)))"
  have init: "P (rg, ids0, jobs, w)" by (simp add: P_def)
  have step: "P sb" if p: "P sa"
    and d: "dispatch_region self eng flt drs level td region sa = Some (Inr sb)" for region sa sb
  proof -
    obtain rga idsa jobsa wa where sa: "sa = (rga, idsa, jobsa, wa)" by (cases sa) auto
    obtain rgb idsb jobsb wb where sb: "sb = (rgb, idsb, jobsb, wb)" by (cases sb) auto
    from p obtain new where pa: "set idsa \<subseteq> set ids0" "fs_datasets wa = fs_datasets w"
      "fs_dirs wa = fs_dirs w" "engine_requests wa = engine_requests w"
      "fs_tiles wa = fs_tiles w @ new" "\<forall>t \<in> set new. Q t"
      by (auto simp: P_def sa)
    from dispatch_region_effect[OF d[unfolded sa sb]] obtain i where
      i: "i < length idsa" "idsb = remove1 (idsa ! i) idsa"
      and fr: "fs_dirs wb = fs_dirs wa" "fs_datasets wb = fs_datasets wa"
        "engine_requests wb = engine_requests wa"
      and t: "fs_tiles wb = fs_tiles wa
          \<or> (\<exists>t. fs_tiles wb = fs_tiles wa @ [t] \<and> tw_level t = level
                \<and> tw_x_start t = fst (idsa ! i) * tile_width self
                \<and> tw_y_start t = snd (idsa ! i) * tile_height self
                \<and> tw_target t = get_tile_filename self td (fst (idsa ! i) * tile_width self)
                                   (snd (idsa ! i) * tile_height self))"
      by blast
    have mem: "(fst (idsa ! i), snd (idsa ! i)) \<in> set ids0" using i(1) pa(1) by (simp add: subsetD)
    have sub: "set idsb \<subseteq> set ids0" using i(2) pa(1) set_remove1_subset by fastforce
    from t have "\<exists>new'. fs_tiles wb = fs_tiles w @ new' \<and> (\<forall>t \<in> set new'. Q t)"
    proof
      assume "fs_tiles wb = fs_tiles wa"
      then show ?thesis using pa(5,6) by auto
    next
      assume "\<exists>t. fs_tiles wb = fs_tiles wa @ [t] \<and> tw_level t = level
                \<and> tw_x_start t = fst (idsa ! i) * tile_width self
                \<and> tw_y_start t = snd (idsa ! i) * tile_height self
                \<and> tw_target t = get_tile_filename self td (fst (idsa ! i) * tile_width self)
                                   (snd (idsa ! i) * tile_height self)"
      then obtain t where t: "fs_tiles wb = fs_tiles wa @ [t]" "tw_level t = level"
        "tw_x_start t = fst (idsa ! i) * tile_width self"
        "tw_y_start t = snd (idsa ! i) * tile_height self"
        "tw_target t = get_tile_filename self td (fst (idsa ! i) * tile_width self)
                                   (snd (idsa ! i) * tile_height self)" by blast
      have "Q t" unfolding Q_def using mem t(2-5) by blast
      then have "\<forall>u \<in> set (new @ [t]). Q u" using pa(6) by simp
      moreover have "fs_tiles wb = fs_tiles w @ (new @ [t])" using t(1) pa(5) by simp
      ultimately show ?thesis by blast
    qed
    then show ?thesis using sub fr pa(2-4) by (simp add: P_def sb)
  qed
  have "P st' \<and> fst st' = []"
  proof (rule dispatch_loop_invariant[where P = P, OF run init])
    fix region sa sb
    assume "P sa" "dispatch_region self eng flt drs level td region sa = Some (Inr sb)"
    then show "P sb" by (rule step)
  qed
  then have "P st'" by blast
  then show ?thesis unfolding P_def Q_def by blast
qed

lemma write_level_effect:
  assumes run: "write_level self eng flt fuel level w = Some (Inr w')"
  shows "\<exists>td ps ids w2 new. plan_level self eng level w = Inr ((td, ps, ids), w2)
       \<and> fs_tiles w' = fs_tiles w @ new
       \<and> fs_datasets w' = fs_datasets w2
       \<and> fs_dirs w' = fs_dirs w2
       \<and> engine_requests w' = engine_requests w2 @ [ps]
       \<and> (\<forall>t \<in> set new. \<exists>gx gy. (gx, gy) \<in> set ids \<and> tw_level t = level
             \<and> tw_x_start t = gx * tile_width self \<and> tw_y_start t = gy * tile_height self
             \<and> tw_target t = get_tile_filename self td (gx * tile_width self) (gy * tile_height self))"
proof -
  from run obtain td ps ids w2 where p: "plan_level self eng level w = Inr ((td, ps, ids), w2)"
    by (auto simp: write_level_def split: sum.splits)
  from run p obtain st' where
    l: "dispatch_loop self eng flt (dimensionRanges eng level) level td fuel 0
          (requestRegions eng level ps, ids, [], w2\<lparr>engine_requests := engine_requests w2 @ [ps]\<rparr>)
        = Some (Inr st')"
    and w': "w' = snd (snd (snd st'))"
    by (auto simp: write_level_def Let_def split: sum.splits option.splits if_splits prod.splits)
  from plan_level_result[OF p] have k: "fs_tiles w2 = fs_tiles w" by blast
  from dispatch_loop_tiles[OF l] show ?thesis using p k by (auto simp: w')
qed
subsection \<open>The scenario, run\<close>

lemma r2: "py_range 2 = [0, 1]" by code_simp
lemma r1: "py_range 1 = [0]" by code_simp
lemma lr2: "level_range 2 = [0, 1]" by code_simp

lemma g0: "grid_size (scenario_self ext) ((0, 1, 599), (0, 1, 599)) = Inr (599, 599, 2, 2)"
  using grid_size_eq[of "(0, 1, 599)" "(0, 1, 599)" "scenario_self ext"]
  by (simp add: dr_step_def dr_end_def dr_origin_def scenario_self_def)

lemma g1: "grid_size (scenario_self ext) ((0, 2, 598), (0, 2, 598)) = Inr (299, 299, 1, 1)"
  using grid_size_eq[of "(0, 2, 598)" "(0, 2, 598)" "scenario_self ext"]
  by (simp add: dr_step_def dr_end_def dr_origin_def scenario_self_def)

lemmas fs_eval = norm_path_def all_slashes_def strip_slashes_def parent_dir_def is_dir_def
  path_exists_def

lemmas path_eval = path_join_def str_int_def str_nat.simps digit_char_def fs_eval

lemmas plan_eval = create_tile_directory_def chunked_def scenario_self_def os_mkdir_def
  create_patch_list_def create_x_directory_def Let_def dr_end_def dr_origin_def dr_step_def
  zarr_create_dataset_def normalize_chunks_def normalize_chunk_def


lemma nr4: "number_regions 0 [a, b, c, d] =
   [\<lparr>region_id = 0, region_range = a\<rparr>, \<lparr>region_id = 1, region_range = b\<rparr>,
    \<lparr>region_id = 2, region_range = c\<rparr>, \<lparr>region_id = 3, region_range = d\<rparr>]"
  by (simp add: number_regions_def upt_rec)

lemma nr1: "number_regions 0 [a] = [\<lparr>region_id = 0, region_range = a\<rparr>]"
  by (simp add: number_regions_def upt_rec)

lemma py_int_succ: "0 \<le> z \<Longrightarrow> py_int (1 + rat_of_int z) = 1 + z"
proof -
  assume z: "0 \<le> z"
  have e: "1 + rat_of_int z = rat_of_int (1 + z)" by simp
  have "0 \<le> rat_of_int (1 + z)" using z by simp
  then show ?thesis unfolding e py_int_def by (simp del: of_int_add)
qed




lemmas dispatch_eval = dispatch_region_def Let_def py_truediv_def py_int_def dr_step_def
  same_region_def pool_submit_def no_faults_def open_wb_def fs_eval

lemma self_jpg [simp]:
  "tile_width (scenario_self ext) = 512" "tile_height (scenario_self ext) = 512"
  "max_workers (scenario_self ext) = 4" "file_type (scenario_self ext) = ext"
  "slide_directory (scenario_self ext) = ''out''" "resolutions (scenario_self ext) = None"
  "\<not> chunked (scenario_self ''jpg'')"
  by (simp_all add: scenario_self_def chunked_def)

lemma scenario_engine_calls [simp]:
  "waitAny scenario_engine level calls pending = rev pending"
  "requestRegions scenario_engine level patches = number_regions 0 patches"
  "dimensionRanges scenario_engine 0 = ((0, 1, 599), (0, 1, 599))"
  "dimensionRanges scenario_engine (Suc n) = ((0, 2, 598), (0, 2, 598))"
  "numLevels scenario_engine = 2"
  by (simp_all add: scenario_engine_def)








lemma region_pixels_length: "length (region_pixels eng region n) = n"
  by (simp add: region_pixels_def)

lemma make_planar_returns:
  assumes "0 \<le> tw" "0 \<le> th" "int (length pixels) = tw * th * 3"
  shows "make_planar pixels tw th = Inr (projr (make_planar pixels tw th))"
proof -
  have "int (length pixels) = int (3 * nat tw * nat th)"
    using assms by (simp add: mult.commute mult.left_commute)
  then have "length pixels = 3 * nat tw * nat th" by linarith
  from make_planar_planes[OF this] show ?thesis using assms(1,2) by simp
qed

lemma write_tile_chunk:
  assumes "chunked self" "0 \<le> tw" "0 \<le> th" "int (length px) = tw * th * 3"
    and "find (\<lambda>d. ds_store d = norm_path filename \<and> ds_name d = str_nat r) (fs_datasets w) = Some d"
    and "ds_shape d = (3, rows, cols)"
    and "py_slice_len ys (ys + th) rows = th" "py_slice_len xs (xs + tw) cols = tw"
    and "flt filename r xs ys = None"
  shows "write_tile self flt px r xs ys tw th filename w =
     Inr (w\<lparr>fs_tiles := fs_tiles w @
       [\<lparr>tw_target = filename, tw_level = r, tw_x_start = xs, tw_y_start = ys,
         tw_width = tw, tw_height = th, tw_payload = Planar (projr (make_planar px tw th))\<rparr>]\<rparr>)"
proof -
  obtain planes where m: "make_planar px tw th = Inr planes"
    using make_planar_returns[OF assms(2,3,4)] by blast
  show ?thesis
    using assms(1,5-9) by (simp add: write_tile_def tile_body_def Let_def m)
qed


lemma self_zarr [simp]: "chunked (scenario_self ''zarr'')"
  by (simp add: chunked_def scenario_self_def)

lemma zarr_name [simp]: "get_tile_filename (scenario_self ''zarr'') td x y = td"
  by (simp add: get_tile_filename_def)

lemma p0z:
  assumes "fs_datasets w = []"
  shows "plan_level (scenario_self ''zarr'') scenario_engine 0 w =
   Inr ((''out/pyramid.zarr'',
         [(0, 511, 0, 511, 0), (512, 599, 0, 511, 0), (0, 511, 512, 599, 0), (512, 599, 512, 599, 0)],
         [(0, 0), (1, 0), (0, 1), (1, 1)]),
        w\<lparr>fs_dirs := insert ''out/pyramid.zarr'' (fs_dirs w),
          fs_datasets := [\<lparr>ds_store = ''out/pyramid.zarr'', ds_name = ''0'', ds_shape = (3, 600, 600),
                           ds_chunks = (3, 512, 512)\<rparr>]\<rparr>)"
  unfolding plan_level_def
  apply (simp add: g0)
  apply (simp add: plan_eval path_eval r2 assms)
  done

lemma p1z:
  assumes "fs_datasets w = [\<lparr>ds_store = ''out/pyramid.zarr'', ds_name = ''0'', ds_shape = (3, 600, 600),
                           ds_chunks = (3, 512, 512)\<rparr>]"
  shows "plan_level (scenario_self ''zarr'') scenario_engine (Suc 0) w =
   Inr ((''out/pyramid.zarr'', [(0, 598, 0, 598, Suc 0)], [(0, 0)]),
        w\<lparr>fs_dirs := insert ''out/pyramid.zarr'' (fs_dirs w),
          fs_datasets := [\<lparr>ds_store = ''out/pyramid.zarr'', ds_name = ''0'', ds_shape = (3, 600, 600),
                           ds_chunks = (3, 512, 512)\<rparr>,
                         \<lparr>ds_store = ''out/pyramid.zarr'', ds_name = ''1'', ds_shape = (3, 300, 300),
                           ds_chunks = (3, 512, 512)\<rparr>]\<rparr>)"
  unfolding plan_level_def
  apply (simp add: g1)
  apply (simp add: plan_eval path_eval r1 assms)
  done

lemma zarr_step:
  assumes ds: "find (\<lambda>d. ds_store d = ''out/pyramid.zarr'' \<and> ds_name d = str_nat level) (fs_datasets w) = Some d"
    and sh: "ds_shape d = (3, rows, cols)"
    and ix: "index_of (same_region \<lparr>region_id = k, region_range = (xs, xe, ys, ye, lv)\<rparr>) rg = Some i"
      "i < length ids" "ids ! i = (gx, gy)"
    and st: "dr_step (fst drs) = sx" "dr_step (snd drs) = sy" "sx \<noteq> 0" "sy \<noteq> 0"
    and sz: "py_int (1 + rat_of_int (xe - xs) / rat_of_int sx) = tw"
      "py_int (1 + rat_of_int (ye - ys) / rat_of_int sy) = th" "0 \<le> tw" "0 \<le> th"
    and sl: "py_slice_len (gy * 512) (gy * 512 + th) rows = th" "py_slice_len (gx * 512) (gx * 512 + tw) cols = tw"
  shows "dispatch_region (scenario_self ''zarr'') scenario_engine no_faults drs level ''out/pyramid.zarr''
           \<lparr>region_id = k, region_range = (xs, xe, ys, ye, lv)\<rparr> (rg, ids, jobs, w)
       = Some (Inr (remove_first (same_region \<lparr>region_id = k, region_range = (xs, xe, ys, ye, lv)\<rparr>) rg,
                    remove1 (gx, gy) ids, jobs @ [None],
                    w\<lparr>fs_tiles := fs_tiles w @
                       [scenario_chunk ''out/pyramid.zarr'' level (gx * 512) (gy * 512) tw th k (xs, xe, ys, ye, lv)]\<rparr>))"
proof -
  have n: "norm_path ''out/pyramid.zarr'' = ''out/pyramid.zarr''" by (simp add: fs_eval)
  have "0 \<le> tw * th" using sz(3,4) by (rule mult_nonneg_nonneg)
  then have nn: "\<not> tw * th * 3 < 0" and nn2: "\<not> tw * th < 0" by linarith+
  have len: "int (length (region_pixels scenario_engine \<lparr>region_id = k, region_range = (xs, xe, ys, ye, lv)\<rparr>
               (nat (tw * th * 3)))) = tw * th * 3"
    using \<open>0 \<le> tw * th\<close> by (simp add: region_pixels_length)
  have wt: "write_tile (scenario_self ''zarr'') no_faults
             (region_pixels scenario_engine \<lparr>region_id = k, region_range = (xs, xe, ys, ye, lv)\<rparr> (nat (tw * th * 3)))
             level (gx * 512) (gy * 512) tw th ''out/pyramid.zarr'' w
      = Inr (w\<lparr>fs_tiles := fs_tiles w @
               [scenario_chunk ''out/pyramid.zarr'' level (gx * 512) (gy * 512) tw th k (xs, xe, ys, ye, lv)]\<rparr>)"
    unfolding scenario_chunk_def
    by (rule write_tile_chunk[OF self_zarr sz(3,4) len _ sh sl]) (simp_all add: n ds no_faults_def)
  show ?thesis
    unfolding dispatch_region_def
    using ix st(3,4)
    by (simp add: py_truediv_def st(1,2) sz(1,2) Let_def wt pool_submit_def nn nn2 del: of_int_diff)
qed


lemmas zarr_eval = py_int_def py_slice_len_def same_region_def dr_step_def str_nat.simps digit_char_def

lemma l0z:
  assumes w: "fs_datasets w = [\<lparr>ds_store = ''out/pyramid.zarr'', ds_name = ''0'', ds_shape = (3, 600, 600),
                           ds_chunks = (3, 512, 512)\<rparr>]"
  shows "dispatch_loop (scenario_self ''zarr'') scenario_engine no_faults ((0, 1, 599), (0, 1, 599)) 0
           ''out/pyramid.zarr'' (Suc 0) 0
     (number_regions 0 [(0, 511, 0, 511, 0), (512, 599, 0, 511, 0), (0, 511, 512, 599, 0), (512, 599, 512, 599, 0)],
      [(0, 0), (1, 0), (0, 1), (1, 1)], [], w)
   = Some (Inr ([], [], [None, None, None, None],
        w\<lparr>fs_tiles := fs_tiles w @
          [scenario_chunk ''out/pyramid.zarr'' 0 512 512 88 88 3 (512, 599, 512, 599, 0),
           scenario_chunk ''out/pyramid.zarr'' 0 0 512 512 88 2 (0, 511, 512, 599, 0),
           scenario_chunk ''out/pyramid.zarr'' 0 512 0 88 512 1 (512, 599, 0, 511, 0),
           scenario_chunk ''out/pyramid.zarr'' 0 0 0 512 512 0 (0, 511, 0, 511, 0)]\<rparr>))"
proof -
  define d0 where "d0 = \<lparr>ds_store = ''out/pyramid.zarr'', ds_name = ''0'', ds_shape = (3 :: int, 600 :: int, 600 :: int),
                           ds_chunks = (3 :: int, 512 :: int, 512 :: int)\<rparr>"
  define r0 where "r0 = \<lparr>region_id = 0, region_range = (0 :: int, 511 :: int, 0 :: int, 511 :: int, 0 :: nat)\<rparr>"
  define r1 where "r1 = \<lparr>region_id = 1, region_range = (512 :: int, 599 :: int, 0 :: int, 511 :: int, 0 :: nat)\<rparr>"
  define r2 where "r2 = \<lparr>region_id = 2, region_range = (0 :: int, 511 :: int, 512 :: int, 599 :: int, 0 :: nat)\<rparr>"
  define r3 where "r3 = \<lparr>region_id = 3, region_range = (512 :: int, 599 :: int, 512 :: int, 599 :: int, 0 :: nat)\<rparr>"
  define c3 where "c3 = scenario_chunk ''out/pyramid.zarr'' 0 512 512 88 88 3 (512, 599, 512, 599, 0)"
  define c2 where "c2 = scenario_chunk ''out/pyramid.zarr'' 0 0 512 512 88 2 (0, 511, 512, 599, 0)"
  define c1 where "c1 = scenario_chunk ''out/pyramid.zarr'' 0 512 0 88 512 1 (512, 599, 0, 511, 0)"
  define c0 where "c0 = scenario_chunk ''out/pyramid.zarr'' 0 0 0 512 512 0 (0, 511, 0, 511, 0)"
  have ds: "find (\<lambda>d. ds_store d = ''out/pyramid.zarr'' \<and> ds_name d = str_nat 0) (fs_datasets v) = Some d0"
    if "fs_datasets v = fs_datasets w" for v
    using that by (simp add: w d0_def str_nat.simps digit_char_def)
  have sh: "ds_shape d0 = (3, 600, 600)" by (simp add: d0_def)
  let ?step = "dispatch_region (scenario_self ''zarr'') scenario_engine no_faults ((0, 1, 599), (0, 1, 599)) 0 ''out/pyramid.zarr''"
  have s1: "?step r3 ([r0, r1, r2, r3], [(0, 0), (1, 0), (0, 1), (1, 1)], [], v)
      = Some (Inr ([r0, r1, r2], [(0, 0), (1, 0), (0, 1)], [None], v\<lparr>fs_tiles := fs_tiles v @ [c3]\<rparr>))"
    if "fs_datasets v = fs_datasets w" for v
    unfolding r3_def c3_def
    by (subst zarr_step[where d = d0 and rows = 600 and cols = 600 and i = 3 and gx = 1 and gy = 1
          and sx = 1 and sy = 1 and tw = 88 and th = 88, OF ds[OF that] sh])
       (simp_all add: zarr_eval r0_def r1_def r2_def)
  have s2: "?step r2 ([r0, r1, r2], [(0, 0), (1, 0), (0, 1)], js, v)
      = Some (Inr ([r0, r1], [(0, 0), (1, 0)], js @ [None], v\<lparr>fs_tiles := fs_tiles v @ [c2]\<rparr>))"
    if "fs_datasets v = fs_datasets w" for v js
    unfolding r2_def c2_def
    by (subst zarr_step[where d = d0 and rows = 600 and cols = 600 and i = 2 and gx = 0 and gy = 1
          and sx = 1 and sy = 1 and tw = 512 and th = 88, OF ds[OF that] sh])
       (simp_all add: zarr_eval r0_def r1_def)
  have s3: "?step r1 ([r0, r1], [(0, 0), (1, 0)], js, v)
      = Some (Inr ([r0], [(0, 0)], js @ [None], v\<lparr>fs_tiles := fs_tiles v @ [c1]\<rparr>))"
    if "fs_datasets v = fs_datasets w" for v js
    unfolding r1_def c1_def
    by (subst zarr_step[where d = d0 and rows = 600 and cols = 600 and i = 1 and gx = 1 and gy = 0
          and sx = 1 and sy = 1 and tw = 88 and th = 512, OF ds[OF that] sh])
       (simp_all add: zarr_eval r0_def)
  have s4: "?step r0 ([r0], [(0, 0)], js, v)
      = Some (Inr ([], [], js @ [None], v\<lparr>fs_tiles := fs_tiles v @ [c0]\<rparr>))"
    if "fs_datasets v = fs_datasets w" for v js
    unfolding r0_def c0_def
    by (subst zarr_step[where d = d0 and rows = 600 and cols = 600 and i = 0 and gx = 0 and gy = 0
          and sx = 1 and sy = 1 and tw = 512 and th = 512, OF ds[OF that] sh])
       (simp_all add: zarr_eval)
  have n: "number_regions 0 [(0, 511, 0, 511, 0), (512, 599, 0, 511, 0), (0, 511, 512, 599, 0), (512, 599, 512, 599, 0)]
      = [r0, r1, r2, r3]"
    by (simp add: nr4 r0_def r1_def r2_def r3_def)
  show ?thesis
    unfolding n c0_def[symmetric] c1_def[symmetric] c2_def[symmetric] c3_def[symmetric]
    by (simp add: s1 s2 s3 s4)
qed


lemma l1z:
  assumes w: "fs_datasets w = [\<lparr>ds_store = ''out/pyramid.zarr'', ds_name = ''0'', ds_shape = (3, 600, 600),
                           ds_chunks = (3, 512, 512)\<rparr>,
                         \<lparr>ds_store = ''out/pyramid.zarr'', ds_name = ''1'', ds_shape = (3, 300, 300),
                           ds_chunks = (3, 512, 512)\<rparr>]"
  shows "dispatch_loop (scenario_self ''zarr'') scenario_engine no_faults ((0, 2, 598), (0, 2, 598)) (Suc 0)
           ''out/pyramid.zarr'' (Suc 0) 0
     (number_regions 0 [(0, 598, 0, 598, Suc 0)], [(0, 0)], [], w)
   = Some (Inr ([], [], [None],
        w\<lparr>fs_tiles := fs_tiles w @
          [scenario_chunk ''out/pyramid.zarr'' (Suc 0) 0 0 300 300 0 (0, 598, 0, 598, Suc 0)]\<rparr>))"
proof -
  define d1 where "d1 = \<lparr>ds_store = ''out/pyramid.zarr'', ds_name = ''1'', ds_shape = (3 :: int, 300 :: int, 300 :: int),
                           ds_chunks = (3 :: int, 512 :: int, 512 :: int)\<rparr>"
  have ds: "find (\<lambda>d. ds_store d = ''out/pyramid.zarr'' \<and> ds_name d = str_nat (Suc 0)) (fs_datasets w) = Some d1"
    by (simp add: w d1_def str_nat.simps digit_char_def)
  have sh: "ds_shape d1 = (3, 300, 300)" by (simp add: d1_def)
  have s: "dispatch_region (scenario_self ''zarr'') scenario_engine no_faults ((0, 2, 598), (0, 2, 598)) (Suc 0)
       ''out/pyramid.zarr'' \<lparr>region_id = 0, region_range = (0, 598, 0, 598, Suc 0)\<rparr>
       ([\<lparr>region_id = 0, region_range = (0, 598, 0, 598, Suc 0)\<rparr>], [(0, 0)], [], w)
     = Some (Inr ([], [], [None],
        w\<lparr>fs_tiles := fs_tiles w @
          [scenario_chunk ''out/pyramid.zarr'' (Suc 0) 0 0 300 300 0 (0, 598, 0, 598, Suc 0)]\<rparr>))"
    by (subst zarr_step[where d = d1 and rows = 300 and cols = 300 and i = 0 and gx = 0 and gy = 0
          and sx = 2 and sy = 2 and tw = 300 and th = 300, OF ds sh])
       (simp_all add: zarr_eval)
  show ?thesis by (simp add: nr1 s)
qed

lemma zarr_run:
  "write_pyramid (scenario_self ''zarr'') scenario_engine no_faults 1 scenario_world =
     Some (Inr (scenario_world\<lparr>
        fs_dirs := {''out/pyramid.zarr'', ''out''},
        fs_datasets :=
          [\<lparr>ds_store = ''out/pyramid.zarr'', ds_name = ''0'', ds_shape = (3, 600, 600),
             ds_chunks = (3, 512, 512)\<rparr>,
           \<lparr>ds_store = ''out/pyramid.zarr'', ds_name = ''1'', ds_shape = (3, 300, 300),
             ds_chunks = (3, 512, 512)\<rparr>],
        fs_tiles :=
          [scenario_chunk ''out/pyramid.zarr'' 0 512 512 88 88 3 (512, 599, 512, 599, 0),
           scenario_chunk ''out/pyramid.zarr'' 0 0 512 512 88 2 (0, 511, 512, 599, 0),
           scenario_chunk ''out/pyramid.zarr'' 0 512 0 88 512 1 (512, 599, 0, 511, 0),
           scenario_chunk ''out/pyramid.zarr'' 0 0 0 512 512 0 (0, 511, 0, 511, 0),
           scenario_chunk ''out/pyramid.zarr'' 1 0 0 300 300 0 (0, 598, 0, 598, 1)],
        engine_requests :=
          [[(0, 511, 0, 511, 0), (512, 599, 0, 511, 0), (0, 511, 512, 599, 0), (512, 599, 512, 599, 0)],
           [(0, 598, 0, 598, 1)]]\<rparr>))"
proof -
  have f: "find_image_type scenario_engine ''WSI'' = Some \<lparr>IMAGE_TYPE = ''WSI'', IMAGE_VALID_DATA_ENVELOPES = Some ()\<rparr>"
    by (simp add: find_image_type_def scenario_engine_def)
  have sw: "fs_dirs scenario_world = {''out''}" "fs_files scenario_world = {}" "fs_tiles scenario_world = []"
    "engine_requests scenario_world = []" "fs_datasets scenario_world = []"
    by (simp_all add: scenario_world_def empty_world_def)
  define d0 where "d0 = \<lparr>ds_store = ''out/pyramid.zarr'', ds_name = ''0'', ds_shape = (3 :: int, 600 :: int, 600 :: int),
                           ds_chunks = (3 :: int, 512 :: int, 512 :: int)\<rparr>"
  define d1 where "d1 = \<lparr>ds_store = ''out/pyramid.zarr'', ds_name = ''1'', ds_shape = (3 :: int, 300 :: int, 300 :: int),
                           ds_chunks = (3 :: int, 512 :: int, 512 :: int)\<rparr>"
  define wa where "wa = scenario_world\<lparr>fs_dirs := {''out/pyramid.zarr'', ''out''}, fs_datasets := [d0],
      engine_requests := [[(0, 511, 0, 511, 0), (512, 599, 0, 511, 0), (0, 511, 512, 599, 0), (512, 599, 512, 599, 0)]]\<rparr>"
  have wa: "fs_datasets wa = [d0]" by (simp add: wa_def)
  define wb where "wb = wa\<lparr>fs_tiles := fs_tiles wa @
          [scenario_chunk ''out/pyramid.zarr'' 0 512 512 88 88 3 (512, 599, 512, 599, 0),
           scenario_chunk ''out/pyramid.zarr'' 0 0 512 512 88 2 (0, 511, 512, 599, 0),
           scenario_chunk ''out/pyramid.zarr'' 0 512 0 88 512 1 (512, 599, 0, 511, 0),
           scenario_chunk ''out/pyramid.zarr'' 0 0 0 512 512 0 (0, 511, 0, 511, 0)]\<rparr>"
  have wb: "fs_datasets wb = [d0]" by (simp add: wb_def wa)
  have lev0: "write_level (scenario_self ''zarr'') scenario_engine no_faults (Suc 0) 0 scenario_world = Some (Inr wb)"
    by (simp add: write_level_def p0z[OF sw(5)] Let_def l0z sw wa_def wb_def d0_def del: dispatch_loop.simps)
  define wc where "wc = wb\<lparr>fs_dirs := {''out/pyramid.zarr'', ''out''}, fs_datasets := [d0, d1],
      engine_requests := engine_requests wb @ [[(0, 598, 0, 598, Suc 0)]]\<rparr>"
  have wc: "fs_datasets wc = [d0, d1]" by (simp add: wc_def)
  have lev1: "write_level (scenario_self ''zarr'') scenario_engine no_faults (Suc 0) (Suc 0) wb
      = Some (Inr (wc\<lparr>fs_tiles := fs_tiles wc @
           [scenario_chunk ''out/pyramid.zarr'' (Suc 0) 0 0 300 300 0 (0, 598, 0, 598, Suc 0)]\<rparr>))"
    by (simp add: write_level_def p1z l1z Let_def wc_def wb_def wa_def sw d0_def d1_def
        del: dispatch_loop.simps)
  show ?thesis
    unfolding write_pyramid_def f
    by (simp add: lr2 lev0 lev1) (simp add: wc_def wb_def wa_def sw scenario_world_def empty_world_def d0_def d1_def)
qed
subsection \<open>Datasets and tile paths\<close>

lemma for_each_invariant:
  assumes "for_each body xs s = Inr s'" "P s"
    and "\<And>x s s'. P s \<Longrightarrow> body x s = Inr s' \<Longrightarrow> P s'"
  shows "P s'"
  using assms(1,2)
proof (induction xs arbitrary: s)
  case Nil
  then show ?case by simp
next
  case (Cons x xs)
  then show ?case using assms(3) by (cases "body x s") auto
qed

lemma create_patch_list_chunked:
  assumes "chunked self"
    and "create_patch_list self ixe iye tiles tile_size origin level td w = Inr (ps, ids, w')"
  shows "w' = w"
proof -
  have "snd (snd (ps, ids, w')) = w"
  proof (rule for_each_invariant[where P = "\<lambda>s. snd (snd s) = w",
        OF assms(2)[unfolded create_patch_list_def Let_def]])
    show "snd (snd ([], [], w)) = w" by simp
  next
    fix y s s'
    assume p: "snd (snd s) = w"
      and b: "for_each (\<lambda>x (patches, patch_identifier, w).
                case create_x_directory self td (x * tile_width self) w of
                  Inl ew \<Rightarrow> Inl ew
                | Inr w' \<Rightarrow> Inr (patches @
                      [(fst origin + x * (fst tile_size * 2 ^ level),
                        min (fst origin + x * (fst tile_size * 2 ^ level) + fst tile_size * 2 ^ level - 2 ^ level) ixe,
                        snd origin + y * (snd tile_size * 2 ^ level),
                        min (snd origin + y * (snd tile_size * 2 ^ level) + snd tile_size * 2 ^ level - 2 ^ level) iye,
                        level)],
                      patch_identifier @ [(x, y)], w'))
              (py_range (fst tiles)) s = Inr s'"
    show "snd (snd s') = w"
      by (rule for_each_invariant[where P = "\<lambda>s. snd (snd s) = w", OF b p])
         (auto simp: create_x_directory_def assms(1) split: sum.splits prod.splits)
  qed
  then show ?thesis by simp
qed


lemma plan_level_chunked:
  assumes ch: "chunked self"
    and st: "dr_step (fst (dimensionRanges eng level)) \<noteq> 0" "dr_step (snd (dimensionRanges eng level)) \<noteq> 0"
    and ts: "0 < tile_width self" "0 < tile_height self"
    and fresh: "\<not> (\<exists>d \<in> set (fs_datasets w).
                 ds_store d = norm_path (path_join (slide_directory self) (''pyramid.'' @ file_type self))
                 \<and> ds_name d = str_nat level)"
  shows "\<exists>ps ids w2.
      plan_level self eng level w
        = Inr ((path_join (slide_directory self) (''pyramid.'' @ file_type self), ps, ids), w2)
    \<and> fs_datasets w2 = fs_datasets w @
          [\<lparr>ds_store = norm_path (path_join (slide_directory self) (''pyramid.'' @ file_type self)),
            ds_name = str_nat level,
            ds_shape = (3,
               \<lceil>(of_int (dr_end (snd (dimensionRanges eng level)) - dr_origin (snd (dimensionRanges eng level))) :: rat)
                  / of_int (dr_step (snd (dimensionRanges eng level)))\<rceil> + 1,
               \<lceil>(of_int (dr_end (fst (dimensionRanges eng level)) - dr_origin (fst (dimensionRanges eng level))) :: rat)
                  / of_int (dr_step (fst (dimensionRanges eng level)))\<rceil> + 1),
            ds_chunks = (3, tile_height self, tile_width self)\<rparr>]"
proof -
  define drx where "drx = fst (dimensionRanges eng level)"
  define dry where "dry = snd (dimensionRanges eng level)"
  define td where "td = path_join (slide_directory self) (''pyramid.'' @ file_type self)"
  define rx where "rx = - (- (dr_end drx - dr_origin drx) div dr_step drx)"
  define ry where "ry = - (- (dr_end dry - dr_origin dry) div dr_step dry)"
  define xt where "xt = - (- rx div tile_width self)"
  define yt where "yt = - (- ry div tile_height self)"
  define d where "d = \<lparr>ds_store = norm_path td, ds_name = str_nat level, ds_shape = (3, ry + 1, rx + 1),
                        ds_chunks = (3, tile_height self, tile_width self)\<rparr>"
  define w1 where "w1 = w\<lparr>fs_dirs := insert (norm_path td) (fs_dirs w), fs_datasets := fs_datasets w @ [d]\<rparr>"
  have g: "grid_size self (dimensionRanges eng level) = Inr (rx, ry, xt, yt)"
    using grid_size_eq[of drx dry self] st ts
    by (simp add: drx_def dry_def rx_def ry_def xt_def yt_def)
  have c: "create_tile_directory self level (rx + 1) (ry + 1) w = Inr (td, w1)"
    using ch fresh ts
    by (simp add: create_tile_directory_def zarr_create_dataset_def Let_def td_def w1_def d_def
        normalize_chunks_def normalize_chunk_def)
  have r: "tile_dir_ready self w1 td" using ch by (simp add: tile_dir_ready_def)
  from create_patch_list_grid[OF r, of "dr_end drx" "dr_end dry" "(xt, yt)"
      "(tile_width self, tile_height self)" "(dr_origin drx, dr_origin dry)" level]
  obtain ps ids w2 where p: "create_patch_list self (dr_end drx) (dr_end dry) (xt, yt)
      (tile_width self, tile_height self) (dr_origin drx, dr_origin dry) level td w1 = Inr (ps, ids, w2)"
    by blast
  have w2: "w2 = w1" by (rule create_patch_list_chunked[OF ch p])
  have pl: "plan_level self eng level w = Inr ((td, ps, ids), w1)"
    using g c p by (simp add: plan_level_def Let_def drx_def dry_def w2)
  have cx: "rx = \<lceil>(of_int (dr_end drx - dr_origin drx) :: rat) / of_int (dr_step drx)\<rceil>"
    unfolding rx_def by (rule ceiling_divide_eq_div[symmetric])
  have cy: "ry = \<lceil>(of_int (dr_end dry - dr_origin dry) :: rat) / of_int (dr_step dry)\<rceil>"
    unfolding ry_def by (rule ceiling_divide_eq_div[symmetric])
  have "fs_datasets w1 = fs_datasets w @ [d]" by (simp add: w1_def)
  then show ?thesis
    using pl unfolding d_def cx cy td_def drx_def dry_def by blast
qed

text \<open>
  Claim C7, with the shape as the code computes it. For the chunked formats, planning a
  level whose ranges are not empty, with positive steps and tile sizes, all sizes below
  \<open>2^53\<close>, in a store that has no dataset of the level's name yet, appends exactly one
  dataset: it is named by the level number, lies in
  \<open><slide_directory>/pyramid.<ext>\<close>, has the chunks
  \<open>(3, tile_height, tile_width)\<close> and the shape
  \<open>(3, resolution_y_end + 1, resolution_x_end + 1)\<close>, where \<open>resolution_x_end\<close> is the
  ceiling of \<open>(end - origin) / step\<close> of the level's X range and \<open>resolution_y_end\<close>
  that of its Y range. The dispatch of the level's tiles leaves the datasets as planning
  made them. In the scenario, whose ranges are \<open>[0, 1, 599]\<close> at level 0 and
  \<open>[0, 2, 598]\<close> at level 1, levels of 600 x 600 and 300 x 300 pixels, the run returns with
  the two datasets of shapes \<open>(3, 600, 600)\<close> and \<open>(3, 300, 300)\<close>, chunked
  \<open>(3, 512, 512)\<close>.
\<close>

theorem level_dataset:
  "(chunked self
      \<and> exact_quotient (dr_end (fst (dimensionRanges eng level)) - dr_origin (fst (dimensionRanges eng level)))
            (dr_step (fst (dimensionRanges eng level)))
      \<and> exact_quotient (dr_end (snd (dimensionRanges eng level)) - dr_origin (snd (dimensionRanges eng level)))
            (dr_step (snd (dimensionRanges eng level)))
      \<and> 0 < tile_width self \<and> tile_width self < 2 ^ 53
      \<and> 0 < tile_height self \<and> tile_height self < 2 ^ 53
      \<and> \<not> (\<exists>d \<in> set (fs_datasets w).
             ds_store d = norm_path (path_join (slide_directory self) (''pyramid.'' @ file_type self))
             \<and> ds_name d = str_nat level)
    \<longrightarrow> (\<exists>ps ids w2.
          plan_level self eng level w
            = Inr ((path_join (slide_directory self) (''pyramid.'' @ file_type self), ps, ids), w2)
        \<and> fs_datasets w2 = fs_datasets w @
            [\<lparr>ds_store = norm_path (path_join (slide_directory self) (''pyramid.'' @ file_type self)),
              ds_name = str_nat level,
              ds_shape = (3,
                 \<lceil>(of_int (dr_end (snd (dimensionRanges eng level)) - dr_origin (snd (dimensionRanges eng level))) :: rat)
                    / of_int (dr_step (snd (dimensionRanges eng level)))\<rceil> + 1,
                 \<lceil>(of_int (dr_end (fst (dimensionRanges eng level)) - dr_origin (fst (dimensionRanges eng level))) :: rat)
                    / of_int (dr_step (fst (dimensionRanges eng level)))\<rceil> + 1),
              ds_chunks = (3, tile_height self, tile_width self)\<rparr>]))
   \<and> (\<forall>w'. write_level self eng flt fuel level w = Some (Inr w') \<longrightarrow>
         (\<exists>td ps ids w2. plan_level self eng level w = Inr ((td, ps, ids), w2)
            \<and> fs_datasets w' = fs_datasets w2))
   \<and> (\<exists>w'. write_pyramid (scenario_self ''zarr'') scenario_engine no_faults 1 scenario_world = Some (Inr w')
         \<and> fs_datasets w' =
             [\<lparr>ds_store = ''out/pyramid.zarr'', ds_name = ''0'', ds_shape = (3, 600, 600),
                ds_chunks = (3, 512, 512)\<rparr>,
              \<lparr>ds_store = ''out/pyramid.zarr'', ds_name = ''1'', ds_shape = (3, 300, 300),
                ds_chunks = (3, 512, 512)\<rparr>])"
proof -
  have b: "\<exists>td ps ids w2. plan_level self eng level w = Inr ((td, ps, ids), w2)
            \<and> fs_datasets w' = fs_datasets w2"
    if "write_level self eng flt fuel level w = Some (Inr w')" for w'
    using write_level_effect[OF that] by blast
  have c: "\<exists>w'. write_pyramid (scenario_self ''zarr'') scenario_engine no_faults 1 scenario_world = Some (Inr w')
         \<and> fs_datasets w' =
             [\<lparr>ds_store = ''out/pyramid.zarr'', ds_name = ''0'', ds_shape = (3, 600, 600),
                ds_chunks = (3, 512, 512)\<rparr>,
              \<lparr>ds_store = ''out/pyramid.zarr'', ds_name = ''1'', ds_shape = (3, 300, 300),
                ds_chunks = (3, 512, 512)\<rparr>]"
    unfolding zarr_run by simp
  have a: "\<exists>ps ids w2.
          plan_level self eng level w
            = Inr ((path_join (slide_directory self) (''pyramid.'' @ file_type self), ps, ids), w2)
        \<and> fs_datasets w2 = fs_datasets w @
            [\<lparr>ds_store = norm_path (path_join (slide_directory self) (''pyramid.'' @ file_type self)),
              ds_name = str_nat level,
              ds_shape = (3,
                 \<lceil>(of_int (dr_end (snd (dimensionRanges eng level)) - dr_origin (snd (dimensionRanges eng level))) :: rat)
                    / of_int (dr_step (snd (dimensionRanges eng level)))\<rceil> + 1,
                 \<lceil>(of_int (dr_end (fst (dimensionRanges eng level)) - dr_origin (fst (dimensionRanges eng level))) :: rat)
                    / of_int (dr_step (fst (dimensionRanges eng level)))\<rceil> + 1),
              ds_chunks = (3, tile_height self, tile_width self)\<rparr>]"
    if "chunked self"
      and "exact_quotient (dr_end (fst (dimensionRanges eng level)) - dr_origin (fst (dimensionRanges eng level)))
            (dr_step (fst (dimensionRanges eng level)))"
      and "exact_quotient (dr_end (snd (dimensionRanges eng level)) - dr_origin (snd (dimensionRanges eng level)))
            (dr_step (snd (dimensionRanges eng level)))"
      and "0 < tile_width self" "0 < tile_height self"
      and "\<not> (\<exists>d \<in> set (fs_datasets w).
             ds_store d = norm_path (path_join (slide_directory self) (''pyramid.'' @ file_type self))
             \<and> ds_name d = str_nat level)"
    using that by (intro plan_level_chunked) (simp_all add: exact_quotient_def)
  show ?thesis using a b c by blast
qed

text \<open>The theorem at level 0 of the scenario.\<close>

theorem level_dataset_witness:
  "chunked (scenario_self ''zarr'')
   \<and> dimensionRanges scenario_engine 0 = ((0, 1, 599), (0, 1, 599))
   \<and> exact_quotient (dr_end (0, 1, 599) - dr_origin (0, 1, 599)) (dr_step (0, 1, 599))
   \<and> 0 < tile_width (scenario_self ''zarr'') \<and> tile_width (scenario_self ''zarr'') < 2 ^ 53
   \<and> 0 < tile_height (scenario_self ''zarr'') \<and> tile_height (scenario_self ''zarr'') < 2 ^ 53
   \<and> fs_datasets scenario_world = []
   \<and> (\<exists>ps ids w2.
         plan_level (scenario_self ''zarr'') scenario_engine 0 scenario_world
           = Inr ((''out/pyramid.zarr'', ps, ids), w2)
       \<and> fs_datasets w2 =
           [\<lparr>ds_store = ''out/pyramid.zarr'', ds_name = ''0'', ds_shape = (3, 600, 600),
              ds_chunks = (3, 512, 512)\<rparr>])"
proof -
  have h: "chunked (scenario_self ''zarr'')"
    "dimensionRanges scenario_engine 0 = ((0, 1, 599), (0, 1, 599))"
    "exact_quotient (dr_end (0, 1, 599) - dr_origin (0, 1, 599)) (dr_step (0, 1, 599))"
    "0 < tile_width (scenario_self ''zarr'')" "tile_width (scenario_self ''zarr'') < 2 ^ 53"
    "0 < tile_height (scenario_self ''zarr'')" "tile_height (scenario_self ''zarr'') < 2 ^ 53"
    "fs_datasets scenario_world = []"
    by (simp_all add: exact_quotient_def dr_step_def dr_end_def dr_origin_def scenario_world_def
        empty_world_def)
  have e: "path_join ''out'' ''pyramid.zarr'' = ''out/pyramid.zarr''"
    "norm_path ''out/pyramid.zarr'' = ''out/pyramid.zarr''" "str_nat 0 = ''0''"
    by (simp_all add: path_eval)
  from level_dataset[of "scenario_self ''zarr''" scenario_engine 0 scenario_world no_faults 1] h
  show ?thesis by (simp add: e exact_quotient_def dr_step_def dr_end_def dr_origin_def)
qed

text \<open>
  A level whose ranges are \<open>[0, 1, 600]\<close> has the extent \<open>ceil((end - origin) / step)\<close>
  of 600 in both directions; its dataset has the shape \<open>(3, 601, 601)\<close>.
\<close>

theorem level_dataset_counterexample:
  "get_size (0, 1, 600) = Inr 600
   \<and> grid_size (scenario_self ''zarr'') ((0, 1, 600), (0, 1, 600)) = Inr (600, 600, 2, 2)
   \<and> map ds_shape (fs_datasets (snd (projr
        (plan_level (scenario_self ''zarr'') (engine_with_ranges ((0, 1, 600), (0, 1, 600))) 0
           scenario_world))))
       = [(3, 601, 601)]"
proof -
  have a: "get_size (0, 1, 600) = Inr 600"
    by (simp add: get_size_def py_truediv_def dr_end_def dr_origin_def dr_step_def)
  have g: "grid_size (scenario_self ''zarr'') ((0, 1, 600), (0, 1, 600)) = Inr (600, 600, 2, 2)"
    using grid_size_eq[of "(0, 1, 600)" "(0, 1, 600)" "scenario_self ''zarr''"]
    by (simp add: dr_step_def dr_end_def dr_origin_def)
  have d: "dimensionRanges (engine_with_ranges ((0, 1, 600), (0, 1, 600))) 0 = ((0, 1, 600), (0, 1, 600))"
    by (simp add: engine_with_ranges_def)
  have "fs_datasets scenario_world = []" by (simp add: scenario_world_def empty_world_def)
  with plan_level_chunked[of "scenario_self ''zarr''" "engine_with_ranges ((0, 1, 600), (0, 1, 600))" 0
      scenario_world]
  obtain ps ids w2 where
    "plan_level (scenario_self ''zarr'') (engine_with_ranges ((0, 1, 600), (0, 1, 600))) 0 scenario_world
       = Inr ((''out/pyramid.zarr'', ps, ids), w2)"
    "map ds_shape (fs_datasets w2) = [(3, 601, 601)]"
    by (auto simp: d dr_step_def dr_end_def dr_origin_def path_eval)
  then show ?thesis using a g by simp
qed






subsection \<open>A failing tile in the scenario\<close>



end
